theory Spec2Isabelle
  imports Complex_Main
begin

section \<open>JavaScript values\<close>

text \<open>
  The values that travel through the dashboard are the results of \<^verbatim>\<open>JSON.parse\<close> and of
  property reads on them. A JSON object is an association list of its own properties (keys
  are distinct after parsing; a lookup takes the first binding). Numbers are only ever
  tested for truthiness or passed through, so a rational stands for the double.
\<close>

datatype jsval =
    JUndefined
  | JNull
  | JBool bool
  | JNum rat
  | JStr string
  | JArr "jsval list"
  | JObj "(string \<times> jsval) list"

text \<open>Truthiness, as tested by \<^verbatim>\<open>!x\<close>, \<^verbatim>\<open>x || y\<close> and \<^verbatim>\<open>if (x)\<close>.\<close>

fun truthy :: "jsval \<Rightarrow> bool" where
  "truthy JUndefined = False"
| "truthy JNull = False"
| "truthy (JBool b) = b"
| "truthy (JNum n) = (n \<noteq> 0)"
| "truthy (JStr s) = (s \<noteq> [])"
| "truthy (JArr xs) = True"
| "truthy (JObj ps) = True"

fun nullish :: "jsval \<Rightarrow> bool" where
  "nullish JUndefined = True"
| "nullish JNull = True"
| "nullish v = False"

text \<open>
  \<^verbatim>\<open>v.k\<close> for the property names this program reads (\<^verbatim>\<open>type\<close>, \<^verbatim>\<open>data\<close>,
  \<^verbatim>\<open>system_status\<close>, \<^verbatim>\<open>is_active\<close>, \<^verbatim>\<open>emergency_mode_active\<close>, \<^verbatim>\<open>detail\<close>): an object
  yields its own property or \<^verbatim>\<open>undefined\<close>; strings, numbers, booleans and arrays have no
  property of these names. The source reads a property without \<^verbatim>\<open>?.\<close> only behind a
  truthiness test of the receiver, so the equation for null and undefined is never used
  by a plain read.
\<close>

fun get_prop :: "jsval \<Rightarrow> string \<Rightarrow> jsval" where
  "get_prop (JObj ps) k = (case map_of ps k of Some v \<Rightarrow> v | None \<Rightarrow> JUndefined)"
| "get_prop v k = JUndefined"

text \<open>\<^verbatim>\<open>v?.k\<close>\<close>

definition opt_prop :: "jsval \<Rightarrow> string \<Rightarrow> jsval" where
  "opt_prop v k = (if nullish v then JUndefined else get_prop v k)"

text \<open>\<^verbatim>\<open>a ?? b\<close>\<close>

definition coalesce :: "jsval \<Rightarrow> jsval \<Rightarrow> jsval" where
  "coalesce a b = (if nullish a then b else a)"

text \<open>Decimal rendering of a natural number, as in a template literal or an array index key.\<close>

fun string_of_nat :: "nat \<Rightarrow> string" where
  "string_of_nat n =
     (if n < 10 then [''0123456789'' ! n]
      else string_of_nat (n div 10) @ [''0123456789'' ! (n mod 10)])"

declare string_of_nat.simps [simp del]

text \<open>
  The own enumerable properties copied by an object spread \<^verbatim>\<open>{...v}\<close>: those of an
  object, the indexed elements of an array, the indexed characters of a string, and none
  for the other values.
\<close>

fun own_props :: "jsval \<Rightarrow> (string \<times> jsval) list" where
  "own_props (JObj ps) = ps"
| "own_props (JArr xs) = map (\<lambda>i. (string_of_nat i, xs ! i)) [0..<length xs]"
| "own_props (JStr s) = map (\<lambda>i. (string_of_nat i, JStr [s ! i])) [0..<length s]"
| "own_props v = []"

text \<open>
  Writing property \<open>k\<close> in an object literal after a spread: an existing binding is
  overwritten in place, a new one is appended.
\<close>

fun set_prop :: "string \<Rightarrow> jsval \<Rightarrow> (string \<times> jsval) list \<Rightarrow> (string \<times> jsval) list" where
  "set_prop k v [] = [(k, v)]"
| "set_prop k v ((k', v') # ps) =
     (if k' = k then (k, v) # ps else (k', v') # set_prop k v ps)"

text \<open>
  \<^verbatim>\<open>String.prototype.toLowerCase\<close> on the ASCII letters. Every other character is left
  as it is: lowering a character outside ASCII never yields a piece of the marker
  \<^verbatim>\<open>operational\<close>, so the test for the marker does not depend on it.
\<close>

definition lower_char :: "char \<Rightarrow> char" where
  "lower_char c =
     (case map_of (zip ''ABCDEFGHIJKLMNOPQRSTUVWXYZ'' ''abcdefghijklmnopqrstuvwxyz'') c of
        Some l \<Rightarrow> l
      | None \<Rightarrow> c)"

definition toLowerCase :: "string \<Rightarrow> string" where
  "toLowerCase s = map lower_char s"

text \<open>\<^verbatim>\<open>s.includes(pat)\<close>: \<open>pat\<close> occurs in \<open>s\<close> as a contiguous substring.\<close>

fun is_prefix :: "string \<Rightarrow> string \<Rightarrow> bool" where
  "is_prefix [] s = True"
| "is_prefix (p # ps) [] = False"
| "is_prefix (p # ps) (c # cs) = (p = c \<and> is_prefix ps cs)"

fun includes_str :: "string \<Rightarrow> string \<Rightarrow> bool" where
  "includes_str [] pat = (pat = [])"
| "includes_str (c # cs) pat = (is_prefix pat (c # cs) \<or> includes_str cs pat)"

section \<open>The dashboard's state and its push-message handler\<close>

text \<open>
  \<^verbatim>\<open>TrafficDashboard\<close> keeps its state in React hooks; each handler runs to completion, so
  a handler is a function from state to state. \<^verbatim>\<open>intersectionStatus\<close>,
  \<^verbatim>\<open>detectionResults\<close> and \<^verbatim>\<open>analyticsData\<close> hold whatever value was stored (initially
  \<^verbatim>\<open>null\<close>); \<^verbatim>\<open>isSimulationRunning\<close> is \<^verbatim>\<open>boolean | null\<close>. The field \<open>requests\<close> is
  not a hook: it records, in order, each call made to the request/response transport.
  Toasts and console output are not state and are left out.
\<close>

datatype ActiveTabType = live | detection | analytics

record dashboard =
  intersectionStatus :: jsval
  detectionResults :: jsval
  analyticsData :: jsval
  isSimulationRunning :: "bool option"
  isLoading :: bool
  isConnecting :: bool
  activeTab :: ActiveTabType
  requests :: "string list"

definition initial_dashboard :: dashboard where
  "initial_dashboard =
     \<lparr>intersectionStatus = JNull, detectionResults = JNull, analyticsData = JNull,
      isSimulationRunning = None, isLoading = False, isConnecting = True,
      activeTab = live, requests = []\<rparr>"

datatype error = Error jsval | TypeError

text \<open>
  \<^verbatim>\<open>x?.system_status?.toLowerCase().includes('operational')\<close>: undefined when the
  payload or its status text is null or undefined, a boolean when the status text is a
  string, and a TypeError (no method \<^verbatim>\<open>toLowerCase\<close>) for any other status value.
\<close>

definition derive_running :: "jsval \<Rightarrow> error + bool option" where
  "derive_running payload =
     (let st = opt_prop payload ''system_status'' in
      if nullish st then Inr None
      else case st of
             JStr s \<Rightarrow> Inr (Some (includes_str (toLowerCase s) ''operational''))
           | _ \<Rightarrow> Inl TypeError)"

text \<open>
  The callback given to \<^verbatim>\<open>service.onMessage\<close>. In the \<^verbatim>\<open>intersection_status\<close> branch
  the snapshot is stored before the running flag is derived, so a TypeError raised by the
  derivation (caught by the surrounding \<^verbatim>\<open>try\<close>) leaves the new snapshot in place.
\<close>

definition emergency_alert_update :: "jsval \<Rightarrow> jsval \<Rightarrow> jsval" where
  "emergency_alert_update payload prev =
     JObj (set_prop ''emergency_mode_active''
             (coalesce (opt_prop payload ''is_active'') (JBool False))
             (own_props (coalesce prev (JObj []))))"

definition onMessage_handler :: "jsval \<Rightarrow> dashboard \<Rightarrow> dashboard" where
  "onMessage_handler data s =
     (if \<not> truthy data \<or> \<not> truthy (get_prop data ''type'') then s
      else if get_prop data ''type'' = JStr ''intersection_status'' then
        (let s1 = s\<lparr>intersectionStatus := get_prop data ''data''\<rparr> in
         case derive_running (get_prop data ''data'') of
           Inl e \<Rightarrow> s1
         | Inr None \<Rightarrow> s1
         | Inr (Some isRunning) \<Rightarrow> s1\<lparr>isSimulationRunning := Some isRunning\<rparr>)
      else if get_prop data ''type'' = JStr ''vehicle_detection'' then
        s\<lparr>detectionResults := get_prop data ''data''\<rparr>
      else if get_prop data ''type'' = JStr ''emergency_alert'' then
        s\<lparr>intersectionStatus :=
             emergency_alert_update (get_prop data ''data'') (intersectionStatus s)\<rparr>
      else s)"

text \<open>The emergency flag as the view reads it: \<^verbatim>\<open>intersectionStatus?.emergency_mode_active\<close>.\<close>

definition emergencyActive :: "dashboard \<Rightarrow> jsval" where
  "emergencyActive s = opt_prop (intersectionStatus s) ''emergency_mode_active''"

text \<open>
  The callbacks given to \<^verbatim>\<open>service.onClose\<close> and \<^verbatim>\<open>service.onError\<close> make the same three
  writes.
\<close>

definition onClose_handler :: "dashboard \<Rightarrow> dashboard" where
  "onClose_handler s =
     s\<lparr>isConnecting := True, isSimulationRunning := Some False, intersectionStatus := JNull\<rparr>"

definition onError_handler :: "dashboard \<Rightarrow> dashboard" where
  "onError_handler s =
     s\<lparr>isConnecting := True, isSimulationRunning := Some False, intersectionStatus := JNull\<rparr>"

text \<open>
  \<^verbatim>\<open>fetchInitialStatus\<close>, split at its \<^verbatim>\<open>await\<close>. The guard reads the values of the render
  that created the closure, given here as \<open>seen\<close>; the writes go to the current state.
  After the request settles, a TypeError raised while deriving the running flag is caught
  by the same \<^verbatim>\<open>catch\<close> as a failed request.
\<close>

definition fetchInitialStatus_begin :: "dashboard \<Rightarrow> dashboard \<Rightarrow> dashboard" where
  "fetchInitialStatus_begin seen s =
     (if isLoading seen \<or> (truthy (intersectionStatus seen) \<and> \<not> isConnecting seen) then s
      else s\<lparr>isLoading := True, requests := requests s @ [''getIntersectionStatus'']\<rparr>)"

definition fetchInitialStatus_settled :: "error + jsval \<Rightarrow> dashboard \<Rightarrow> dashboard" where
  "fetchInitialStatus_settled r s =
     (let failed = s\<lparr>isSimulationRunning := Some False, intersectionStatus := JNull,
                      isLoading := False\<rparr> in
      case r of
        Inl e \<Rightarrow> failed
      | Inr st \<Rightarrow>
          (case derive_running st of
             Inl e \<Rightarrow> failed
           | Inr None \<Rightarrow> s\<lparr>intersectionStatus := st, isLoading := False\<rparr>
           | Inr (Some isRunning) \<Rightarrow>
               s\<lparr>intersectionStatus := st, isSimulationRunning := Some isRunning,
                 isLoading := False\<rparr>))"

definition onOpen_handler :: "dashboard \<Rightarrow> dashboard \<Rightarrow> dashboard" where
  "onOpen_handler seen s = fetchInitialStatus_begin seen (s\<lparr>isConnecting := False\<rparr>)"

section \<open>Commands over the request/response transport\<close>

text \<open>
  \<^verbatim>\<open>callApi\<close>, split at its \<^verbatim>\<open>await\<close>. The first part runs synchronously up to the call
  of \<^verbatim>\<open>apiCall\<close>, named here by the request it sends; it has no branch that returns or
  throws before that call. The second part runs when the request settles: the result is
  returned or the error thrown again, and \<^verbatim>\<open>finally\<close> clears the loading flag.
\<close>

definition callApi_begin :: "string \<Rightarrow> dashboard \<Rightarrow> dashboard" where
  "callApi_begin apiCall s = s\<lparr>isLoading := True, requests := requests s @ [apiCall]\<rparr>"

definition callApi_settled :: "error + jsval \<Rightarrow> dashboard \<Rightarrow> (error + jsval) \<times> dashboard" where
  "callApi_settled r s = (r, s\<lparr>isLoading := False\<rparr>)"

text \<open>
  The dropzone's \<^verbatim>\<open>onDrop\<close>, given the number of accepted files. Reading
  \<^verbatim>\<open>result.total_vehicles\<close> for the success toast throws on a null result, after the
  result has been stored and before the tab is switched.
\<close>

definition onDrop_begin :: "nat \<Rightarrow> dashboard \<Rightarrow> dashboard" where
  "onDrop_begin acceptedFiles s =
     (if acceptedFiles = 0 then s
      else s\<lparr>isLoading := True, requests := requests s @ [''detectVehicles'']\<rparr>)"

definition onDrop_settled :: "error + jsval \<Rightarrow> dashboard \<Rightarrow> dashboard" where
  "onDrop_settled r s =
     (case r of
        Inl e \<Rightarrow> s\<lparr>isLoading := False\<rparr>
      | Inr result \<Rightarrow>
          if nullish result then s\<lparr>detectionResults := result, isLoading := False\<rparr>
          else s\<lparr>detectionResults := result, activeTab := detection, isLoading := False\<rparr>)"

text \<open>
  \<^verbatim>\<open>loadAnalytics\<close> is created again whenever the values its guard reads change, so the
  guard reads the current state.
\<close>

definition loadAnalytics_begin :: "dashboard \<Rightarrow> dashboard" where
  "loadAnalytics_begin s =
     (if isLoading s \<or> truthy (analyticsData s) then s
      else s\<lparr>isLoading := True, requests := requests s @ [''getAnalyticsSummary'']\<rparr>)"

definition loadAnalytics_settled :: "error + jsval \<Rightarrow> dashboard \<Rightarrow> dashboard" where
  "loadAnalytics_settled r s =
     (case r of
        Inl e \<Rightarrow> s\<lparr>analyticsData := JNull, isLoading := False\<rparr>
      | Inr summaryData \<Rightarrow> s\<lparr>analyticsData := summaryData, isLoading := False\<rparr>)"

text \<open>The \<^verbatim>\<open>disabled\<close> attributes of the start/stop button and of the dropzone.\<close>

definition button_disabled :: "dashboard \<Rightarrow> bool" where
  "button_disabled s = (isLoading s \<or> isConnecting s \<or> isSimulationRunning s = None)"

definition dropzone_disabled :: "dashboard \<Rightarrow> bool" where
  "dropzone_disabled s = isLoading s"

text \<open>
  Every handler of the component that writes its state, as one event type.
  \<^verbatim>\<open>handleStartSimulation\<close> and \<^verbatim>\<open>handleStopSimulation\<close> are a \<^verbatim>\<open>callApi\<close> followed, on
  success, by a status frame handed to the message callback, so they are a
  \<open>CallApiBegin\<close>, a \<open>CallApiSettled\<close> and a \<open>Message\<close>. \<open>DetectionCleared\<close>
  is the 300 ms timer of the tab effect.
\<close>

datatype dash_event =
    Message jsval
  | Opened dashboard
  | Closed
  | Errored
  | InitialStatusSettled "error + jsval"
  | CallApiBegin string
  | CallApiSettled "error + jsval"
  | DropBegin nat
  | DropSettled "error + jsval"
  | AnalyticsBegin
  | AnalyticsSettled "error + jsval"
  | TabSelected ActiveTabType
  | DetectionCleared

fun dash_step :: "dash_event \<Rightarrow> dashboard \<Rightarrow> dashboard" where
  "dash_step (Message data) s = onMessage_handler data s"
| "dash_step (Opened seen) s = onOpen_handler seen s"
| "dash_step Closed s = onClose_handler s"
| "dash_step Errored s = onError_handler s"
| "dash_step (InitialStatusSettled r) s = fetchInitialStatus_settled r s"
| "dash_step (CallApiBegin apiCall) s = callApi_begin apiCall s"
| "dash_step (CallApiSettled r) s = snd (callApi_settled r s)"
| "dash_step (DropBegin n) s = onDrop_begin n s"
| "dash_step (DropSettled r) s = onDrop_settled r s"
| "dash_step AnalyticsBegin s = loadAnalytics_begin s"
| "dash_step (AnalyticsSettled r) s = loadAnalytics_settled r s"
| "dash_step (TabSelected t) s = s\<lparr>activeTab := t\<rparr>"
| "dash_step DetectionCleared s = s\<lparr>detectionResults := JNull\<rparr>"

text \<open>The discriminant of a frame, when it is one of the three the callback branches on.\<close>

definition frame_type :: "jsval \<Rightarrow> string option" where
  "frame_type data =
     (if get_prop data ''type'' = JStr ''intersection_status'' then Some ''intersection_status''
      else if get_prop data ''type'' = JStr ''vehicle_detection'' then Some ''vehicle_detection''
      else if get_prop data ''type'' = JStr ''emergency_alert'' then Some ''emergency_alert''
      else None)"

section \<open>Responses of the request/response transport\<close>

text \<open>
  A \<^verbatim>\<open>fetch\<close> response as \<^verbatim>\<open>handleResponse\<close> sees it: the status code, the status text
  and what \<^verbatim>\<open>response.json()\<close> gives when it is awaited (\<open>None\<close> when it rejects
  because the body is not JSON).
\<close>

record response =
  status :: nat
  statusText :: string
  json :: "jsval option"

definition ok :: "response \<Rightarrow> bool" where
  "ok r = (200 \<le> status r \<and> status r \<le> 299)"

text \<open>
  \<open>Error m\<close> stands for \<^verbatim>\<open>new Error(m)\<close>: the message is \<open>m\<close> itself when it is a
  string, and its string conversion otherwise.
\<close>

definition handleResponse :: "response \<Rightarrow> error + jsval" where
  "handleResponse r =
     (if \<not> ok r then
        (let errorData =
               (case json r of
                  Some v \<Rightarrow> v
                | None \<Rightarrow>
                    JObj [(''detail'',
                           if truthy (JStr (statusText r)) then JStr (statusText r)
                           else JStr ''Unknown fetch error'')]);
             errorMessage =
               (if truthy (opt_prop errorData ''detail'') then opt_prop errorData ''detail''
                else JStr (''HTTP error! Status: '' @ string_of_nat (status r)))
         in Inl (Error errorMessage))
      else if status r = 204 \<or> status r = 202 then
        Inr (JObj [(''status'', JNum (of_nat (status r))), (''message'', JStr (statusText r))])
      else
        (case json r of
           Some v \<Rightarrow> Inr v
         | None \<Rightarrow> Inl (Error (JStr ''Failed to parse API response JSON.''))))"

section \<open>The push-channel service\<close>

text \<open>
  \<^verbatim>\<open>WebSocketService\<close> together with the part of the browser it acts on. The first five
  fields are the fields of the class; \<^verbatim>\<open>ws\<close> refers to a socket by its position in
  \<open>sockets\<close>, the list of the ready states of every \<^verbatim>\<open>WebSocket\<close> the instance has
  constructed. \<open>timers\<close> holds the pending timeouts with their delays and
  \<open>next_timer\<close> the next id \<^verbatim>\<open>setTimeout\<close> returns (an id is always truthy).
  \<open>ctor_throws\<close> tells whether \<^verbatim>\<open>new WebSocket(url)\<close> throws for the url of this
  instance. Three fields record what happens: \<open>attempts\<close> counts the runs of
  \<^verbatim>\<open>connect\<close> that get past its guard, \<open>delivered\<close> lists the calls of the message
  handler, and \<open>app\<close> is the state the handler acts on.

  The delays 5000, 7500, 11250, 16875, 25312.5 and 30000, and the products 37968.75 and
  45000 that the cap cuts back, are exact as doubles, so the multiplication by 1.5 is the
  rational one.
\<close>

datatype readyState = CONNECTING | OPEN | CLOSING | CLOSED

record ('h, 'a) WebSocketService =
  ws :: "nat option"
  messageHandler :: "'h option"
  reconnectIntervalId :: "nat option"
  reconnectDelay :: rat
  maxReconnectDelay :: rat
  sockets :: "readyState list"
  timers :: "(nat \<times> rat) list"
  next_timer :: nat
  ctor_throws :: bool
  attempts :: nat
  delivered :: "('h \<times> jsval) list"
  app :: 'a

definition clearReconnectInterval ::
  "('h, 'a) WebSocketService \<Rightarrow> ('h, 'a) WebSocketService" where
  "clearReconnectInterval w =
     (case reconnectIntervalId w of
        Some t \<Rightarrow> w\<lparr>timers := filter (\<lambda>p. fst p \<noteq> t) (timers w), reconnectIntervalId := None\<rparr>
      | None \<Rightarrow> w)"

text \<open>The timer is armed with the delay as it is now; the delay grows when the timer fires.\<close>

definition scheduleReconnect ::
  "('h, 'a) WebSocketService \<Rightarrow> ('h, 'a) WebSocketService" where
  "scheduleReconnect w =
     (let w1 = clearReconnectInterval w in
      w1\<lparr>reconnectIntervalId := Some (next_timer w1),
         timers := timers w1 @ [(next_timer w1, reconnectDelay w1)],
         next_timer := Suc (next_timer w1)\<rparr>)"

definition connect :: "('h, 'a) WebSocketService \<Rightarrow> ('h, 'a) WebSocketService" where
  "connect w =
     (if (case ws w of Some i \<Rightarrow> i < length (sockets w) \<and> sockets w ! i = OPEN | None \<Rightarrow> False)
      then w
      else if ctor_throws w then scheduleReconnect (w\<lparr>attempts := Suc (attempts w)\<rparr>)
      else w\<lparr>ws := Some (length (sockets w)), sockets := sockets w @ [CONNECTING],
             attempts := Suc (attempts w)\<rparr>)"

text \<open>The callback of the reconnect timer.\<close>

definition reconnect_timeout :: "('h, 'a) WebSocketService \<Rightarrow> ('h, 'a) WebSocketService" where
  "reconnect_timeout w =
     connect (w\<lparr>reconnectDelay := min (maxReconnectDelay w) (reconnectDelay w * (3 / 2))\<rparr>)"

text \<open>The four handlers \<^verbatim>\<open>connect\<close> attaches to every socket it constructs.\<close>

definition onopen :: "('h, 'a) WebSocketService \<Rightarrow> ('h, 'a) WebSocketService" where
  "onopen w = clearReconnectInterval (w\<lparr>reconnectDelay := 5000\<rparr>)"

definition onmessage ::
  "(string \<Rightarrow> jsval option) \<Rightarrow> ('h \<Rightarrow> jsval \<Rightarrow> 'a \<Rightarrow> 'a) \<Rightarrow> string \<Rightarrow>
   ('h, 'a) WebSocketService \<Rightarrow> ('h, 'a) WebSocketService" where
  "onmessage parse call raw w =
     (case parse raw of
        None \<Rightarrow> w
      | Some data \<Rightarrow>
          (case messageHandler w of
             Some h \<Rightarrow> w\<lparr>delivered := delivered w @ [(h, data)], app := call h data (app w)\<rparr>
           | None \<Rightarrow> w))"

definition onerror :: "('h, 'a) WebSocketService \<Rightarrow> ('h, 'a) WebSocketService" where
  "onerror w = w"

definition onclose :: "('h, 'a) WebSocketService \<Rightarrow> ('h, 'a) WebSocketService" where
  "onclose w = scheduleReconnect (w\<lparr>ws := None\<rparr>)"

text \<open>The public methods. \<^verbatim>\<open>ws.close(1000, ...)\<close> starts the closing handshake of a socket
  that is not closed yet; its close event comes later.\<close>

definition onMessage :: "'h \<Rightarrow> ('h, 'a) WebSocketService \<Rightarrow> ('h, 'a) WebSocketService" where
  "onMessage handler w = w\<lparr>messageHandler := Some handler\<rparr>"

definition close_socket :: "readyState \<Rightarrow> readyState" where
  "close_socket r = (if r = CLOSED then CLOSED else CLOSING)"

definition disconnect :: "('h, 'a) WebSocketService \<Rightarrow> ('h, 'a) WebSocketService" where
  "disconnect w =
     (let w1 = (clearReconnectInterval w)\<lparr>messageHandler := None\<rparr> in
      case ws w1 of
        Some i \<Rightarrow>
          if i < length (sockets w1)
          then w1\<lparr>sockets := (sockets w1)[i := close_socket (sockets w1 ! i)], ws := None\<rparr>
          else w1\<lparr>ws := None\<rparr>
      | None \<Rightarrow> w1)"

definition isConnected :: "('h, 'a) WebSocketService \<Rightarrow> bool" where
  "isConnected w =
     (case ws w of Some i \<Rightarrow> i < length (sockets w) \<and> sockets w ! i = OPEN | None \<Rightarrow> False)"

text \<open>The constructor: the field initialisers, then \<^verbatim>\<open>connect\<close>.\<close>

definition new_service :: "bool \<Rightarrow> 'a \<Rightarrow> ('h, 'a) WebSocketService" where
  "new_service throws a =
     connect \<lparr>ws = None, messageHandler = None, reconnectIntervalId = None,
              reconnectDelay = 5000, maxReconnectDelay = 30000, sockets = [], timers = [],
              next_timer = 1, ctor_throws = throws, attempts = 0, delivered = [], app = a\<rparr>"

text \<open>
  What can happen to an instance: the browser fires an event of one of its sockets or
  its timer, or the application calls a public method. An event the browser cannot fire
  in the state at hand (an open event of a socket that is not connecting, a message on a
  socket that is not open, a close event of a closed socket, a timer that is not
  pending) gives \<open>None\<close>.
\<close>

datatype 'h event =
    SockOpen nat
  | SockMessage nat string
  | SockError nat
  | SockClose nat
  | TimerFire nat
  | OnMessage 'h
  | Disconnect

fun step ::
  "(string \<Rightarrow> jsval option) \<Rightarrow> ('h \<Rightarrow> jsval \<Rightarrow> 'a \<Rightarrow> 'a) \<Rightarrow> 'h event \<Rightarrow>
   ('h, 'a) WebSocketService \<Rightarrow> ('h, 'a) WebSocketService option" where
  "step parse call (SockOpen i) w =
     (if i < length (sockets w) \<and> sockets w ! i = CONNECTING
      then Some (onopen (w\<lparr>sockets := (sockets w)[i := OPEN]\<rparr>)) else None)"
| "step parse call (SockMessage i raw) w =
     (if i < length (sockets w) \<and> sockets w ! i = OPEN
      then Some (onmessage parse call raw w) else None)"
| "step parse call (SockError i) w =
     (if i < length (sockets w) \<and> sockets w ! i \<noteq> CLOSED then Some (onerror w) else None)"
| "step parse call (SockClose i) w =
     (if i < length (sockets w) \<and> sockets w ! i \<noteq> CLOSED
      then Some (onclose (w\<lparr>sockets := (sockets w)[i := CLOSED]\<rparr>)) else None)"
| "step parse call (TimerFire t) w =
     (if t \<in> fst ` set (timers w)
      then Some (reconnect_timeout (w\<lparr>timers := filter (\<lambda>p. fst p \<noteq> t) (timers w)\<rparr>))
      else None)"
| "step parse call (OnMessage handler) w = Some (onMessage handler w)"
| "step parse call Disconnect w = Some (disconnect w)"

fun run ::
  "(string \<Rightarrow> jsval option) \<Rightarrow> ('h \<Rightarrow> jsval \<Rightarrow> 'a \<Rightarrow> 'a) \<Rightarrow> 'h event list \<Rightarrow>
   ('h, 'a) WebSocketService \<Rightarrow> ('h, 'a) WebSocketService option" where
  "run parse call [] w = Some w"
| "run parse call (e # es) w =
     (case step parse call e w of None \<Rightarrow> None | Some w' \<Rightarrow> run parse call es w')"

text \<open>A channel is live until its close event has been fired.\<close>

definition live_channels :: "('h, 'a) WebSocketService \<Rightarrow> nat" where
  "live_channels w = length (filter (\<lambda>r. r \<noteq> CLOSED) (sockets w))"

text \<open>The delay of the pending reconnect timer, if there is one.\<close>

definition scheduled_delay :: "('h, 'a) WebSocketService \<Rightarrow> rat option" where
  "scheduled_delay w =
     (case reconnectIntervalId w of Some t \<Rightarrow> map_of (timers w) t | None \<Rightarrow> None)"

text \<open>
  A failure of the current channel (its close event), the expiry of the pending reconnect
  timer, and \<open>n\<close> failures in a row, each but the first after the retry the timer
  starts, with no open event between them.
\<close>

definition channel_fails ::
  "(string \<Rightarrow> jsval option) \<Rightarrow> ('h \<Rightarrow> jsval \<Rightarrow> 'a \<Rightarrow> 'a) \<Rightarrow>
   ('h, 'a) WebSocketService \<Rightarrow> ('h, 'a) WebSocketService option" where
  "channel_fails parse call w =
     (case ws w of Some i \<Rightarrow> step parse call (SockClose i) w | None \<Rightarrow> None)"

definition timer_expires ::
  "(string \<Rightarrow> jsval option) \<Rightarrow> ('h \<Rightarrow> jsval \<Rightarrow> 'a \<Rightarrow> 'a) \<Rightarrow>
   ('h, 'a) WebSocketService \<Rightarrow> ('h, 'a) WebSocketService option" where
  "timer_expires parse call w =
     (case reconnectIntervalId w of Some t \<Rightarrow> step parse call (TimerFire t) w | None \<Rightarrow> None)"

fun failures ::
  "(string \<Rightarrow> jsval option) \<Rightarrow> ('h \<Rightarrow> jsval \<Rightarrow> 'a \<Rightarrow> 'a) \<Rightarrow> nat \<Rightarrow>
   ('h, 'a) WebSocketService \<Rightarrow> ('h, 'a) WebSocketService option" where
  "failures parse call 0 w = Some w"
| "failures parse call (Suc n) w =
     (if n = 0 then channel_fails parse call w
      else case failures parse call n w of
             None \<Rightarrow> None
           | Some w1 \<Rightarrow>
               (case timer_expires parse call w1 of
                  None \<Rightarrow> None
                | Some w2 \<Rightarrow> channel_fails parse call w2))"

text \<open>
  The handler slot as the calls of the public methods leave it: \<^verbatim>\<open>onMessage\<close> fills it,
  \<^verbatim>\<open>disconnect\<close> empties it.
\<close>

fun last_registered :: "'h event list \<Rightarrow> 'h option \<Rightarrow> 'h option" where
  "last_registered [] cur = cur"
| "last_registered (OnMessage handler # es) cur = last_registered es (Some handler)"
| "last_registered (Disconnect # es) cur = last_registered es None"
| "last_registered (e # es) cur = last_registered es cur"

fun is_OnMessage :: "'h event \<Rightarrow> bool" where
  "is_OnMessage (OnMessage handler) = True"
| "is_OnMessage e = False"

text \<open>
  The frames of the push channel reach the dashboard through \<^verbatim>\<open>ws.onmessage\<close> and the
  callback the dashboard registers; \<open>process_frames\<close> is a sequence of them arriving at
  a service whose only handler is that callback.
\<close>

definition dashboard_call :: "unit \<Rightarrow> jsval \<Rightarrow> dashboard \<Rightarrow> dashboard" where
  "dashboard_call h data s = onMessage_handler data s"

fun process_frames ::
  "(string \<Rightarrow> jsval option) \<Rightarrow> string list \<Rightarrow> (unit, dashboard) WebSocketService \<Rightarrow>
   (unit, dashboard) WebSocketService" where
  "process_frames parse [] w = w"
| "process_frames parse (raw # raws) w =
     process_frames parse raws (onmessage parse dashboard_call raw w)"

text \<open>A frame the dashboard has a branch for: it parses and its discriminant is known.\<close>

definition recognized :: "(string \<Rightarrow> jsval option) \<Rightarrow> string \<Rightarrow> bool" where
  "recognized parse raw =
     (case parse raw of None \<Rightarrow> False | Some data \<Rightarrow> frame_type data \<noteq> None)"

text \<open>
  The active flag an alert frame carries, as the callback reads it:
  \<^verbatim>\<open>data.data?.is_active ?? false\<close>.
\<close>

definition alert_active :: "jsval \<Rightarrow> jsval" where
  "alert_active data = coalesce (opt_prop (get_prop data ''data'') ''is_active'') (JBool False)"

text \<open>
  The events whose handler assigns \<^verbatim>\<open>intersectionStatus\<close>, the value the emergency flag
  is read from.
\<close>

fun writes_emergency :: "dash_event \<Rightarrow> bool" where
  "writes_emergency (Message data) =
     (frame_type data = Some ''emergency_alert'' \<or> frame_type data = Some ''intersection_status'')"
| "writes_emergency Closed = True"
| "writes_emergency Errored = True"
| "writes_emergency (InitialStatusSettled r) = True"
| "writes_emergency e = False"

text \<open>
  What holds of the timers and channels of an instance in every state it can reach: at
  most one timeout is pending, it is the one \<^verbatim>\<open>reconnectIntervalId\<close> names, and while it
  is pending every channel is closed.
\<close>

definition timer_inv :: "('h, 'a) WebSocketService \<Rightarrow> bool" where
  "timer_inv w =
     (timers w = [] \<or>
      (\<exists>t d. timers w = [(t, d)] \<and> reconnectIntervalId w = Some t \<and> live_channels w = 0))"

definition service_inv :: "('h, 'a) WebSocketService \<Rightarrow> bool" where
  "service_inv w = (live_channels w \<le> 1 \<and> timer_inv w)"

text \<open>
  The second half of the invariant: a channel that is connecting or open is the one
  \<^verbatim>\<open>ws\<close> refers to, and the maximal delay is never written.
\<close>

definition current_inv :: "('h, 'a) WebSocketService \<Rightarrow> bool" where
  "current_inv w =
     ((\<forall>j < length (sockets w).
         sockets w ! j = CONNECTING \<or> sockets w ! j = OPEN \<longrightarrow> ws w = Some j) \<and>
      maxReconnectDelay w = 30000)"

text \<open>
  The deliveries a sequence of events should cause, read off the events alone: a message
  that parses goes once to the handler registered last, if \<^verbatim>\<open>disconnect\<close> has not
  emptied the slot since, and to nobody otherwise.
\<close>

fun expected_deliveries ::
  "(string \<Rightarrow> jsval option) \<Rightarrow> 'h event list \<Rightarrow> 'h option \<Rightarrow> ('h \<times> jsval) list" where
  "expected_deliveries parse [] cur = []"
| "expected_deliveries parse (SockMessage i raw # es) cur =
     (case parse raw of
        None \<Rightarrow> []
      | Some data \<Rightarrow> (case cur of None \<Rightarrow> [] | Some h \<Rightarrow> [(h, data)]))
     @ expected_deliveries parse es cur"
| "expected_deliveries parse (OnMessage handler # es) cur =
     expected_deliveries parse es (Some handler)"
| "expected_deliveries parse (Disconnect # es) cur = expected_deliveries parse es None"
| "expected_deliveries parse (e # es) cur = expected_deliveries parse es cur"

text \<open>
  \<open>just_connected\<close> holds of an instance right after its construction and right after
  an open event: it has a current channel, no pending timer and the base delay.
  \<open>backoff k\<close> is the delay after \<open>k\<close> growth steps, and \<open>retry_pending k\<close> the
  state in which the reconnect timer is armed with it.
\<close>

definition just_connected :: "('h, 'a) WebSocketService \<Rightarrow> bool" where
  "just_connected w =
     ((case ws w of Some i \<Rightarrow> i < length (sockets w) \<and> sockets w ! i \<noteq> CLOSED | None \<Rightarrow> False) \<and>
      timers w = [] \<and> reconnectDelay w = 5000 \<and> maxReconnectDelay w = 30000 \<and>
      \<not> ctor_throws w)"

definition backoff :: "nat \<Rightarrow> rat" where
  "backoff k = min 30000 (5000 * (3 / 2) ^ k)"

definition retry_pending :: "nat \<Rightarrow> ('h, 'a) WebSocketService \<Rightarrow> bool" where
  "retry_pending k w =
     (ws w = None \<and>
      (\<exists>t. reconnectIntervalId w = Some t \<and> timers w = [(t, backoff k)]) \<and>
      reconnectDelay w = backoff k \<and> maxReconnectDelay w = 30000 \<and> \<not> ctor_throws w)"

fun is_TimerFire :: "'h event \<Rightarrow> bool" where
  "is_TimerFire (TimerFire t) = True"
| "is_TimerFire e = False"

text \<open>
  When the constructor of the socket throws, every attempt fails inside \<^verbatim>\<open>connect\<close>:
  the first in the constructor of the service, each later one when the timer expires.
  \<open>expiries n\<close> is \<open>n\<close> such expiries in a row.
\<close>

fun expiries ::
  "(string \<Rightarrow> jsval option) \<Rightarrow> ('h \<Rightarrow> jsval \<Rightarrow> 'a \<Rightarrow> 'a) \<Rightarrow> nat \<Rightarrow>
   ('h, 'a) WebSocketService \<Rightarrow> ('h, 'a) WebSocketService option" where
  "expiries parse call 0 w = Some w"
| "expiries parse call (Suc n) w =
     (case expiries parse call n w of
        None \<Rightarrow> None
      | Some w1 \<Rightarrow> timer_expires parse call w1)"

definition retry_pending_throwing :: "nat \<Rightarrow> ('h, 'a) WebSocketService \<Rightarrow> bool" where
  "retry_pending_throwing k w =
     (ws w = None \<and>
      (\<exists>t. reconnectIntervalId w = Some t \<and> timers w = [(t, backoff k)]) \<and>
      reconnectDelay w = backoff k \<and> maxReconnectDelay w = 30000 \<and> ctor_throws w)"

section \<open>Properties of the message handler\<close>

lemma map_of_set_prop: "map_of (set_prop k v ps) k = Some v"
  by (induction ps) auto

lemma frame_type_SomeD:
  assumes "frame_type data = Some t"
  shows "get_prop data ''type'' = JStr t" and "truthy data" and "t \<noteq> []"
    and "t = ''intersection_status'' \<or> t = ''vehicle_detection'' \<or> t = ''emergency_alert''"
proof -
  from assms obtain ps where d: "data = JObj ps"
    by (cases data) (simp_all add: frame_type_def)
  from assms show "get_prop data ''type'' = JStr t"
    unfolding frame_type_def by (auto split: if_splits)
  from assms show "t = ''intersection_status'' \<or> t = ''vehicle_detection'' \<or> t = ''emergency_alert''"
    unfolding frame_type_def by (auto split: if_splits)
  then show "t \<noteq> []" by auto
  show "truthy data" using d by simp
qed

lemma frame_type_None_unchanged:
  "frame_type data = None \<Longrightarrow> onMessage_handler data s = s"
  by (simp add: frame_type_def onMessage_handler_def split: if_splits)





lemma handler_status:
  assumes "frame_type data = Some ''intersection_status''"
  shows "onMessage_handler data s =
     (case derive_running (get_prop data ''data'') of
        Inr (Some b) \<Rightarrow> s\<lparr>intersectionStatus := get_prop data ''data'', isSimulationRunning := Some b\<rparr>
      | _ \<Rightarrow> s\<lparr>intersectionStatus := get_prop data ''data''\<rparr>)"
proof -
  have t: "get_prop data ''type'' = JStr ''intersection_status''" and d: "truthy data"
    using frame_type_SomeD[OF assms] by blast+
  show ?thesis
    unfolding onMessage_handler_def Let_def t
    using d by (simp split: sum.split option.split)
qed

lemma handler_alert:
  assumes "frame_type data = Some ''emergency_alert''"
  shows "onMessage_handler data s =
     s\<lparr>intersectionStatus := emergency_alert_update (get_prop data ''data'') (intersectionStatus s)\<rparr>"
proof -
  have t: "get_prop data ''type'' = JStr ''emergency_alert''" and d: "truthy data"
    using frame_type_SomeD[OF assms] by blast+
  show ?thesis
    unfolding onMessage_handler_def Let_def t
    using d by simp
qed

lemma handler_detection:
  assumes "frame_type data = Some ''vehicle_detection''"
  shows "onMessage_handler data s = s\<lparr>detectionResults := get_prop data ''data''\<rparr>"
proof -
  have t: "get_prop data ''type'' = JStr ''vehicle_detection''" and d: "truthy data"
    using frame_type_SomeD[OF assms] by blast+
  show ?thesis
    unfolding onMessage_handler_def Let_def t
    using d by simp
qed

lemma emergencyActive_alert_update:
  "opt_prop (emergency_alert_update payload prev) ''emergency_mode_active'' =
     coalesce (opt_prop payload ''is_active'') (JBool False)"
  by (simp add: emergency_alert_update_def opt_prop_def map_of_set_prop)

lemma alert_frame_flag:
  assumes "frame_type data = Some ''emergency_alert''"
  shows "emergencyActive (onMessage_handler data s) = alert_active data"
  by (simp add: handler_alert[OF assms] emergencyActive_def emergencyActive_alert_update
      alert_active_def)

lemma onmessage_dropped:
  assumes "\<not> recognized parse raw"
  shows "app (onmessage parse dashboard_call raw w) = app w"
    and "messageHandler (onmessage parse dashboard_call raw w) = messageHandler w"
  using assms
  by (auto simp: recognized_def onmessage_def dashboard_call_def frame_type_None_unchanged
      split: option.splits)

lemma onmessage_cong:
  assumes "app w = app w'" and "messageHandler w = messageHandler w'"
  shows "app (onmessage parse call raw w) = app (onmessage parse call raw w')"
    and "messageHandler (onmessage parse call raw w) = messageHandler (onmessage parse call raw w')"
  using assms by (auto simp: onmessage_def split: option.splits)

lemma process_frames_cong:
  assumes "app w = app w'" and "messageHandler w = messageHandler w'"
  shows "app (process_frames parse raws w) = app (process_frames parse raws w')"
  using assms
proof (induction raws arbitrary: w w')
  case Nil
  then show ?case by simp
next
  case (Cons raw raws)
  show ?case
    using Cons.IH[OF onmessage_cong[OF Cons.prems]] by simp
qed

lemma process_frames_filter:
  "app (process_frames parse raws w) =
   app (process_frames parse (filter (recognized parse) raws) w)"
proof (induction raws arbitrary: w)
  case Nil
  then show ?case by simp
next
  case (Cons raw raws)
  show ?case
  proof (cases "recognized parse raw")
    case True
    then show ?thesis using Cons.IH by simp
  next
    case False
    have "app (process_frames parse (raw # raws) w)
        = app (process_frames parse (filter (recognized parse) raws)
                 (onmessage parse dashboard_call raw w))"
      using Cons.IH by simp
    also have "\<dots> = app (process_frames parse (filter (recognized parse) raws) w)"
      by (rule process_frames_cong) (rule onmessage_dropped[OF False])+
    finally show ?thesis using False by simp
  qed
qed

lemma dash_step_no_writer:
  assumes "\<not> writes_emergency e"
  shows "intersectionStatus (dash_step e s) = intersectionStatus s"
proof (cases e)
  case (Message data)
  with assms have nt: "frame_type data \<noteq> Some ''emergency_alert''"
      "frame_type data \<noteq> Some ''intersection_status''" by simp_all
  show ?thesis
  proof (cases "frame_type data")
    case None
    then show ?thesis using Message by (simp add: frame_type_None_unchanged)
  next
    case (Some t)
    with nt frame_type_SomeD(4)[OF Some] have "frame_type data = Some ''vehicle_detection''"
      by auto
    then show ?thesis using Message by (simp add: handler_detection)
  qed
next
  case (Opened seen)
  then show ?thesis by (simp add: onOpen_handler_def fetchInitialStatus_begin_def)
next
  case (DropSettled r)
  then show ?thesis by (simp add: onDrop_settled_def split: sum.split)
next
  case (AnalyticsSettled r)
  then show ?thesis by (simp add: loadAnalytics_settled_def split: sum.split)
qed (use assms in \<open>simp_all add: callApi_begin_def callApi_settled_def onDrop_begin_def
      loadAnalytics_begin_def\<close>)

section \<open>Properties of the push-channel service\<close>

lemma clear_fields [simp]:
  "ws (clearReconnectInterval w) = ws w"
  "messageHandler (clearReconnectInterval w) = messageHandler w"
  "reconnectDelay (clearReconnectInterval w) = reconnectDelay w"
  "maxReconnectDelay (clearReconnectInterval w) = maxReconnectDelay w"
  "sockets (clearReconnectInterval w) = sockets w"
  "next_timer (clearReconnectInterval w) = next_timer w"
  "ctor_throws (clearReconnectInterval w) = ctor_throws w"
  "attempts (clearReconnectInterval w) = attempts w"
  "delivered (clearReconnectInterval w) = delivered w"
  "app (clearReconnectInterval w) = app w"
  "reconnectIntervalId (clearReconnectInterval w) = None"
  by (simp_all add: clearReconnectInterval_def split: option.split)

lemma schedule_fields [simp]:
  "ws (scheduleReconnect w) = ws w"
  "messageHandler (scheduleReconnect w) = messageHandler w"
  "reconnectDelay (scheduleReconnect w) = reconnectDelay w"
  "maxReconnectDelay (scheduleReconnect w) = maxReconnectDelay w"
  "sockets (scheduleReconnect w) = sockets w"
  "ctor_throws (scheduleReconnect w) = ctor_throws w"
  "attempts (scheduleReconnect w) = attempts w"
  "delivered (scheduleReconnect w) = delivered w"
  "app (scheduleReconnect w) = app w"
  "reconnectIntervalId (scheduleReconnect w) = Some (next_timer w)"
  "timers (scheduleReconnect w) =
     timers (clearReconnectInterval w) @ [(next_timer w, reconnectDelay w)]"
  by (simp_all add: scheduleReconnect_def Let_def)

lemma connect_fields [simp]:
  "messageHandler (connect w) = messageHandler w"
  "reconnectDelay (connect w) = reconnectDelay w"
  "maxReconnectDelay (connect w) = maxReconnectDelay w"
  "ctor_throws (connect w) = ctor_throws w"
  "delivered (connect w) = delivered w"
  "app (connect w) = app w"
  by (simp_all add: connect_def)


lemma live_update_same:
  "i < length xs \<Longrightarrow> (xs ! i \<noteq> CLOSED) = (y \<noteq> CLOSED) \<Longrightarrow>
   length (filter (\<lambda>r. r \<noteq> CLOSED) (xs[i := y])) = length (filter (\<lambda>r. r \<noteq> CLOSED) xs)"
proof (induction xs arbitrary: i)
  case Nil
  then show ?case by simp
next
  case (Cons x xs)
  then show ?case by (cases i) auto
qed

lemma live_update_closed:
  "i < length xs \<Longrightarrow> xs ! i \<noteq> CLOSED \<Longrightarrow>
   Suc (length (filter (\<lambda>r. r \<noteq> CLOSED) (xs[i := CLOSED]))) = length (filter (\<lambda>r. r \<noteq> CLOSED) xs)"
proof (induction xs arbitrary: i)
  case Nil
  then show ?case by simp
next
  case (Cons x xs)
  then show ?case by (cases i) auto
qed

lemma timers_clear: "timer_inv w \<Longrightarrow> timers (clearReconnectInterval w) = []"
  by (auto simp: timer_inv_def clearReconnectInterval_def split: option.split)

lemma live_clear [simp]: "live_channels (clearReconnectInterval w) = live_channels w"
  by (simp add: live_channels_def)

lemma live_schedule [simp]: "live_channels (scheduleReconnect w) = live_channels w"
  by (simp add: live_channels_def)

lemma inv_schedule:
  assumes "timer_inv w" and "live_channels w = 0"
  shows "service_inv (scheduleReconnect w)"
  using assms timers_clear[OF assms(1)]
  by (simp add: service_inv_def timer_inv_def)

lemma inv_clear:
  assumes "service_inv w"
  shows "service_inv (clearReconnectInterval w)"
  using assms timers_clear[of w] by (simp add: service_inv_def timer_inv_def)

lemma inv_connect:
  assumes "timers w = []" and "live_channels w = 0"
  shows "service_inv (connect w)"
proof -
  have ti: "timer_inv (w\<lparr>attempts := Suc (attempts w)\<rparr>)"
    using assms by (simp add: timer_inv_def)
  have lv: "live_channels (w\<lparr>attempts := Suc (attempts w)\<rparr>) = 0"
    using assms by (simp add: live_channels_def)
  show ?thesis
    unfolding connect_def
    using assms inv_schedule[OF ti lv]
    by (auto simp: service_inv_def timer_inv_def live_channels_def)
qed

lemma inv_new_service: "service_inv (new_service throws a)"
  unfolding new_service_def
  by (rule inv_connect) (simp_all add: live_channels_def)

lemma inv_step:
  assumes "service_inv w" and "step parse call e w = Some w'"
  shows "service_inv w'"
proof (cases e)
  case (SockOpen i)
  with assms(2) have i: "i < length (sockets w)" "sockets w ! i = CONNECTING"
    and w': "w' = onopen (w\<lparr>sockets := (sockets w)[i := OPEN]\<rparr>)"
    by (auto split: if_splits)
  have "live_channels (w\<lparr>sockets := (sockets w)[i := OPEN], reconnectDelay := 5000\<rparr>)
      = live_channels w"
    using i by (simp add: live_channels_def live_update_same)
  moreover have "service_inv (w\<lparr>sockets := (sockets w)[i := OPEN], reconnectDelay := 5000\<rparr>)"
    using assms(1) i
    by (simp add: service_inv_def timer_inv_def live_channels_def live_update_same)
  ultimately show ?thesis
    unfolding w' onopen_def by (simp add: inv_clear)
next
  case (SockMessage i raw)
  with assms show ?thesis
    by (auto simp: onmessage_def service_inv_def timer_inv_def live_channels_def
        split: if_splits option.splits)
next
  case (SockError i)
  with assms show ?thesis by (auto simp: onerror_def split: if_splits)
next
  case (SockClose i)
  with assms(2) have i: "i < length (sockets w)" "sockets w ! i \<noteq> CLOSED"
    and w': "w' = onclose (w\<lparr>sockets := (sockets w)[i := CLOSED]\<rparr>)"
    by (auto split: if_splits)
  let ?w1 = "w\<lparr>sockets := (sockets w)[i := CLOSED], ws := None\<rparr>"
  have l0: "length (filter (\<lambda>r. r \<noteq> CLOSED) ((sockets w)[i := CLOSED])) = 0"
    using assms(1) live_update_closed[OF i]
    unfolding service_inv_def live_channels_def by linarith
  have "live_channels ?w1 = 0"
    using l0 by (simp add: live_channels_def)
  moreover have "timer_inv ?w1"
    using assms(1) l0
    by (auto simp: service_inv_def timer_inv_def live_channels_def)
  ultimately show ?thesis
    unfolding w' onclose_def using inv_schedule[of ?w1] by simp
next
  case (TimerFire t)
  with assms(2) have t: "t \<in> fst ` set (timers w)"
    and w': "w' = reconnect_timeout (w\<lparr>timers := filter (\<lambda>p. fst p \<noteq> t) (timers w)\<rparr>)"
    by (auto split: if_splits)
  from t assms(1) have "timers w \<noteq> []" by auto
  with assms(1) t have tm: "filter (\<lambda>p. fst p \<noteq> t) (timers w) = []" and lv: "live_channels w = 0"
    by (auto simp: service_inv_def timer_inv_def)
  show ?thesis
    unfolding w' reconnect_timeout_def
    by (rule inv_connect) (use tm lv in \<open>simp_all add: live_channels_def\<close>)
next
  case (OnMessage h)
  with assms show ?thesis
    by (auto simp: onMessage_def service_inv_def timer_inv_def live_channels_def)
next
  case Disconnect
  with assms(2) have w': "w' = disconnect w" by simp
  let ?w1 = "(clearReconnectInterval w)\<lparr>messageHandler := None\<rparr>"
  have tm: "timers ?w1 = []" using assms(1) timers_clear[of w] by (simp add: service_inv_def)
  have lv: "live_channels ?w1 = live_channels w" by (simp add: live_channels_def)
  show ?thesis
  proof (cases "ws w")
    case None
    then show ?thesis
      using assms(1) tm lv unfolding w' disconnect_def
      by (simp add: Let_def service_inv_def timer_inv_def)
  next
    case (Some i)
    have "live_channels (?w1\<lparr>sockets := (sockets ?w1)[i := close_socket (sockets ?w1 ! i)], ws := None\<rparr>)
        = live_channels w" if "i < length (sockets w)"
      using that by (simp add: live_channels_def live_update_same close_socket_def)
    moreover have "live_channels (?w1\<lparr>ws := None\<rparr>) = live_channels w"
      by (simp add: live_channels_def)
    ultimately show ?thesis
      using assms(1) tm Some unfolding w' disconnect_def
      by (simp add: Let_def service_inv_def timer_inv_def)
  qed
qed

lemma inv_run:
  assumes "service_inv w" and "run parse call es w = Some w'"
  shows "service_inv w'"
  using assms
proof (induction es arbitrary: w)
  case Nil
  then show ?case by simp
next
  case (Cons e es)
  then show ?case by (auto split: option.splits dest: inv_step)
qed

lemma disconnect_fields [simp]:
  "messageHandler (disconnect w) = None"
  "delivered (disconnect w) = delivered w"
  "app (disconnect w) = app w"
  "reconnectDelay (disconnect w) = reconnectDelay w"
  "maxReconnectDelay (disconnect w) = maxReconnectDelay w"
  "ctor_throws (disconnect w) = ctor_throws w"
  "attempts (disconnect w) = attempts w"
  by (simp_all add: disconnect_def Let_def split: option.split)

lemma onopen_fields [simp]:
  "messageHandler (onopen w) = messageHandler w"
  "delivered (onopen w) = delivered w"
  "app (onopen w) = app w"
  "reconnectDelay (onopen w) = 5000"
  "maxReconnectDelay (onopen w) = maxReconnectDelay w"
  "ctor_throws (onopen w) = ctor_throws w"
  by (simp_all add: onopen_def)

lemma onclose_fields [simp]:
  "messageHandler (onclose w) = messageHandler w"
  "delivered (onclose w) = delivered w"
  "app (onclose w) = app w"
  "reconnectDelay (onclose w) = reconnectDelay w"
  "maxReconnectDelay (onclose w) = maxReconnectDelay w"
  "ctor_throws (onclose w) = ctor_throws w"
  by (simp_all add: onclose_def)

lemma reconnect_timeout_fields [simp]:
  "messageHandler (reconnect_timeout w) = messageHandler w"
  "delivered (reconnect_timeout w) = delivered w"
  "app (reconnect_timeout w) = app w"
  "maxReconnectDelay (reconnect_timeout w) = maxReconnectDelay w"
  "ctor_throws (reconnect_timeout w) = ctor_throws w"
  by (simp_all add: reconnect_timeout_def)

lemma step_deliveries:
  assumes "step parse call e w = Some w'"
  shows "delivered w' = delivered w @ expected_deliveries parse [e] (messageHandler w)"
    and "messageHandler w' = last_registered [e] (messageHandler w)"
    and "app w' = fold (\<lambda>p. call (fst p) (snd p))
                    (expected_deliveries parse [e] (messageHandler w)) (app w)"
  using assms
  by (cases e; auto simp: onmessage_def onerror_def onMessage_def
      split: if_splits option.splits)+

lemma expected_deliveries_Cons:
  "expected_deliveries parse (e # es) cur =
     expected_deliveries parse [e] cur @ expected_deliveries parse es (last_registered [e] cur)"
  by (cases e) simp_all

lemma last_registered_Cons:
  "last_registered (e # es) cur = last_registered es (last_registered [e] cur)"
  by (cases e) simp_all

lemma run_deliveries:
  assumes "run parse call es w = Some w'"
  shows "delivered w' = delivered w @ expected_deliveries parse es (messageHandler w) \<and>
         messageHandler w' = last_registered es (messageHandler w) \<and>
         app w' = fold (\<lambda>p. call (fst p) (snd p))
                    (expected_deliveries parse es (messageHandler w)) (app w)"
  using assms
proof (induction es arbitrary: w)
  case Nil
  then show ?case by simp
next
  case (Cons e es)
  from Cons.prems obtain w1 where s: "step parse call e w = Some w1"
    and r: "run parse call es w1 = Some w'"
    by (auto split: option.splits)
  note d = step_deliveries[OF s]
  from Cons.IH[OF r] show ?case
    unfolding d expected_deliveries_Cons[of parse e es] last_registered_Cons[of e es]
    by simp
qed

lemma expected_none:
  "\<forall>e \<in> set es. \<not> is_OnMessage e \<Longrightarrow> expected_deliveries parse es None = []"
proof (induction es)
  case Nil
  then show ?case by simp
next
  case (Cons e es)
  then show ?case by (cases e) (auto split: option.splits)
qed

lemma backoff_Suc: "min 30000 (backoff k * 3 / 2) = backoff (Suc k)"
proof -
  have "(0::rat) \<le> 5000 * (3 / 2) ^ k" by simp
  then show ?thesis
    unfolding backoff_def by (simp add: min_def)
qed

lemma first_failure:
  assumes "just_connected w"
  shows "\<exists>w'. channel_fails parse call w = Some w' \<and> retry_pending 0 w'"
proof -
  from assms obtain i where i: "ws w = Some i" "i < length (sockets w)" "sockets w ! i \<noteq> CLOSED"
    by (auto simp: just_connected_def split: option.splits)
  have "channel_fails parse call w = Some (onclose (w\<lparr>sockets := (sockets w)[i := CLOSED]\<rparr>))"
    using i by (simp add: channel_fails_def)
  moreover have "retry_pending 0 (onclose (w\<lparr>sockets := (sockets w)[i := CLOSED]\<rparr>))"
    using assms
    by (simp add: retry_pending_def just_connected_def onclose_def backoff_def
        clearReconnectInterval_def split: option.split)
  ultimately show ?thesis by blast
qed

lemma next_failure:
  assumes "retry_pending k w"
  shows "\<exists>w1 w'. timer_expires parse call w = Some w1 \<and>
                 channel_fails parse call w1 = Some w' \<and> retry_pending (Suc k) w'"
proof -
  from assms obtain t where t: "reconnectIntervalId w = Some t" "timers w = [(t, backoff k)]"
    and w: "ws w = None" "reconnectDelay w = backoff k" "maxReconnectDelay w = 30000"
      "\<not> ctor_throws w"
    by (auto simp: retry_pending_def)
  let ?w1 = "w\<lparr>timers := [], reconnectDelay := backoff (Suc k), ws := Some (length (sockets w)),
               sockets := sockets w @ [CONNECTING], attempts := Suc (attempts w)\<rparr>"
  have e: "timer_expires parse call w = Some ?w1"
    using t w by (simp add: timer_expires_def reconnect_timeout_def connect_def backoff_Suc)
  let ?w' = "onclose (?w1\<lparr>sockets := (sockets ?w1)[length (sockets w) := CLOSED]\<rparr>)"
  have f: "channel_fails parse call ?w1 = Some ?w'"
    by (simp add: channel_fails_def nth_append)
  have "retry_pending (Suc k) ?w'"
    using t w
    by (simp add: retry_pending_def onclose_def clearReconnectInterval_def)
  with e f show ?thesis by blast
qed

lemma failures_backoff:
  assumes "just_connected w"
  shows "\<exists>w'. failures parse call (Suc n) w = Some w' \<and> retry_pending n w'"
proof (induction n)
  case 0
  show ?case using first_failure[OF assms] by simp
next
  case (Suc n)
  then obtain w0 where w0: "failures parse call (Suc n) w = Some w0" "retry_pending n w0"
    by blast
  from next_failure[OF w0(2)] obtain w1 w' where
    "timer_expires parse call w0 = Some w1" "channel_fails parse call w1 = Some w'"
    "retry_pending (Suc n) w'" by blast
  with w0 show ?case by (simp del: failures.simps(2) add: failures.simps(2)[of _ _ "Suc n"])
qed

lemma retry_pending_delay: "retry_pending k w \<Longrightarrow> scheduled_delay w = Some (backoff k)"
  by (auto simp: retry_pending_def scheduled_delay_def)

lemma onmessage_fields [simp]:
  "ws (onmessage parse call raw w) = ws w"
  "sockets (onmessage parse call raw w) = sockets w"
  "timers (onmessage parse call raw w) = timers w"
  "reconnectIntervalId (onmessage parse call raw w) = reconnectIntervalId w"
  "reconnectDelay (onmessage parse call raw w) = reconnectDelay w"
  "maxReconnectDelay (onmessage parse call raw w) = maxReconnectDelay w"
  "ctor_throws (onmessage parse call raw w) = ctor_throws w"
  "attempts (onmessage parse call raw w) = attempts w"
  by (simp_all add: onmessage_def split: option.split)

lemma no_live_all_closed:
  assumes "live_channels w = 0" and "j < length (sockets w)"
  shows "sockets w ! j = CLOSED"
proof -
  from assms(1) have "filter (\<lambda>r. r \<noteq> CLOSED) (sockets w) = []"
    by (simp add: live_channels_def)
  then have "\<forall>r \<in> set (sockets w). r = CLOSED"
    by (simp add: filter_empty_conv)
  with nth_mem[OF assms(2)] show ?thesis by blast
qed

lemma current_inv_connect:
  assumes "live_channels w = 0" and "maxReconnectDelay w = 30000"
  shows "current_inv (connect w)"
proof -
  have closed: "sockets w ! j = CLOSED" if "j < length (sockets w)" for j
    using no_live_all_closed[OF assms(1) that] .
  have guard: "\<not> (case ws w of Some i \<Rightarrow> i < length (sockets w) \<and> sockets w ! i = OPEN
                      | None \<Rightarrow> False)"
    using closed by (auto split: option.split)
  show ?thesis
  proof (cases "ctor_throws w")
    case True
    then have "connect w = scheduleReconnect (w\<lparr>attempts := Suc (attempts w)\<rparr>)"
      using guard by (simp add: connect_def)
    then show ?thesis using closed assms(2) by (simp add: current_inv_def)
  next
    case False
    then have c: "connect w = w\<lparr>ws := Some (length (sockets w)),
        sockets := sockets w @ [CONNECTING], attempts := Suc (attempts w)\<rparr>"
      using guard by (simp add: connect_def)
    have "j = length (sockets w)"
      if "j < Suc (length (sockets w))"
        and "(sockets w @ [CONNECTING]) ! j = CONNECTING \<or> (sockets w @ [CONNECTING]) ! j = OPEN"
      for j
    proof (rule ccontr)
      assume "j \<noteq> length (sockets w)"
      with that(1) have lt: "j < length (sockets w)" by simp
      with that(2) closed[OF lt] show False by (simp add: nth_append)
    qed
    then show ?thesis unfolding c current_inv_def using assms(2) by auto
  qed
qed

lemma current_inv_step:
  assumes "service_inv w" and "current_inv w" and "step parse call e w = Some w'"
  shows "current_inv w'"
proof -
  have m: "maxReconnectDelay w = 30000"
    using assms(2) unfolding current_inv_def by blast
  have cur: "ws w = Some j"
    if "j < length (sockets w)" and "sockets w ! j = CONNECTING \<or> sockets w ! j = OPEN" for j
    using assms(2) that unfolding current_inv_def by blast
  have intro: "current_inv v"
    if "maxReconnectDelay v = 30000"
      and "\<And>j. j < length (sockets v) \<Longrightarrow>
             sockets v ! j = CONNECTING \<or> sockets v ! j = OPEN \<Longrightarrow> ws v = Some j"
    for v :: "('a, 'b) WebSocketService"
    using that unfolding current_inv_def by blast
  show ?thesis
  proof (cases e)
    case (SockOpen i)
    with assms(3) have i: "i < length (sockets w)" "sockets w ! i = CONNECTING"
      and w': "w' = onopen (w\<lparr>sockets := (sockets w)[i := OPEN]\<rparr>)"
      by (auto split: if_splits)
    have sk: "sockets w' = (sockets w)[i := OPEN]" and wsw: "ws w' = ws w"
      and mw: "maxReconnectDelay w' = 30000"
      unfolding w' onopen_def using m by simp_all
    show ?thesis
    proof (rule intro[OF mw])
      fix j
      assume j: "j < length (sockets w')"
        and st: "sockets w' ! j = CONNECTING \<or> sockets w' ! j = OPEN"
      show "ws w' = Some j"
      proof (cases "j = i")
        case True
        with cur[OF i(1)] i(2) wsw show ?thesis by simp
      next
        case False
        with st sk have "sockets w ! j = CONNECTING \<or> sockets w ! j = OPEN" by simp
        moreover from j sk have "j < length (sockets w)" by simp
        ultimately show ?thesis using cur wsw by simp
      qed
    qed
  next
    case (SockMessage i raw)
    with assms(3) have w': "w' = onmessage parse call raw w" by (auto split: if_splits)
    show ?thesis
      by (rule intro) (use m cur in \<open>simp_all add: w'\<close>)
  next
    case (SockError i)
    with assms(2,3) show ?thesis by (auto simp: onerror_def split: if_splits)
  next
    case (SockClose i)
    with assms(3) have i: "i < length (sockets w)" "sockets w ! i \<noteq> CLOSED"
      and w': "w' = onclose (w\<lparr>sockets := (sockets w)[i := CLOSED]\<rparr>)"
      by (auto split: if_splits)
    have l0: "length (filter (\<lambda>r. r \<noteq> CLOSED) ((sockets w)[i := CLOSED])) = 0"
      using assms(1) live_update_closed[OF i]
      unfolding service_inv_def live_channels_def by linarith
    then have "filter (\<lambda>r. r \<noteq> CLOSED) ((sockets w)[i := CLOSED]) = []"
      by simp
    then have "\<forall>r \<in> set ((sockets w)[i := CLOSED]). r = CLOSED"
      by (simp add: filter_empty_conv)
    then have closed: "\<forall>j < length (sockets w). (sockets w)[i := CLOSED] ! j = CLOSED"
      by (metis length_list_update nth_mem)
    have sk: "sockets w' = (sockets w)[i := CLOSED]" and mw: "maxReconnectDelay w' = 30000"
      unfolding w' onclose_def using m by simp_all
    show ?thesis
      by (rule intro[OF mw]) (use closed sk in auto)
  next
    case (TimerFire t)
    with assms(3) have t: "t \<in> fst ` set (timers w)"
      and w': "w' = reconnect_timeout (w\<lparr>timers := filter (\<lambda>p. fst p \<noteq> t) (timers w)\<rparr>)"
      by (auto split: if_splits)
    from t have "timers w \<noteq> []" by auto
    with assms(1) have lv: "live_channels w = 0"
      by (auto simp: service_inv_def timer_inv_def)
    show ?thesis
      unfolding w' reconnect_timeout_def
      by (rule current_inv_connect) (use lv m in \<open>simp_all add: live_channels_def\<close>)
  next
    case (OnMessage h)
    with assms(3) have w': "w' = onMessage h w" by simp
    show ?thesis
      by (rule intro) (use m cur in \<open>simp_all add: w' onMessage_def\<close>)
  next
    case Disconnect
    with assms(3) have w': "w' = disconnect w" by simp
    have none: "sockets w ! j \<noteq> CONNECTING \<and> sockets w ! j \<noteq> OPEN"
      if "j < length (sockets w)" and "ws w \<noteq> Some j" for j
      using cur[OF that(1)] that(2) by blast
    have mw: "maxReconnectDelay w' = 30000" unfolding w' using m by simp
    show ?thesis
    proof (cases "ws w")
      case None
      then have sk: "sockets w' = sockets w"
        unfolding w' disconnect_def by (simp add: Let_def)
      show ?thesis
        by (rule intro[OF mw]) (use none None sk in auto)
    next
      case (Some i)
      show ?thesis
      proof (cases "i < length (sockets w)")
        case True
        then have sk: "sockets w' = (sockets w)[i := close_socket (sockets w ! i)]"
          unfolding w' disconnect_def using Some by (simp add: Let_def)
        have "sockets w' ! j \<noteq> CONNECTING \<and> sockets w' ! j \<noteq> OPEN"
          if "j < length (sockets w)" for j
        proof (cases "j = i")
          case True
          with that show ?thesis unfolding sk by (simp add: close_socket_def)
        next
          case False
          with that none[of j] Some show ?thesis unfolding sk by simp
        qed
        then show ?thesis
          by (intro intro[OF mw]) (use sk in auto)
      next
        case False
        then have sk: "sockets w' = sockets w"
          unfolding w' disconnect_def using Some by (simp add: Let_def)
        have "sockets w ! j \<noteq> CONNECTING \<and> sockets w ! j \<noteq> OPEN"
          if "j < length (sockets w)" for j
          using none[of j] that Some False by auto
        then show ?thesis
          by (intro intro[OF mw]) (use sk in auto)
      qed
    qed
  qed
qed

lemma current_inv_new_service: "current_inv (new_service throws a)"
  unfolding new_service_def
  by (rule current_inv_connect) (simp_all add: live_channels_def)

lemma invs_run:
  assumes "service_inv w" and "current_inv w" and "run parse call es w = Some w'"
  shows "service_inv w' \<and> current_inv w' \<and> ctor_throws w' = ctor_throws w"
  using assms
proof (induction es arbitrary: w)
  case Nil
  then show ?case by simp
next
  case (Cons e es)
  from Cons.prems(3) obtain w1 where s: "step parse call e w = Some w1"
    and r: "run parse call es w1 = Some w'"
    by (auto split: option.splits)
  have "ctor_throws w1 = ctor_throws w"
    using s by (cases e) (auto simp: onerror_def onMessage_def split: if_splits)
  with Cons.IH[OF inv_step[OF Cons.prems(1) s] current_inv_step[OF Cons.prems(1,2) s] r]
  show ?case by simp
qed

lemma open_gives_just_connected:
  assumes "service_inv w" and "current_inv w" and "\<not> ctor_throws w"
    and "step parse call (SockOpen i) w = Some w1"
  shows "just_connected w1"
proof -
  from assms(4) have i: "i < length (sockets w)" "sockets w ! i = CONNECTING"
    and w1: "w1 = onopen (w\<lparr>sockets := (sockets w)[i := OPEN]\<rparr>)"
    by (auto split: if_splits)
  from assms(2) i have c: "ws w = Some i" unfolding current_inv_def by blast
  have "timer_inv w1" using inv_step[OF assms(1,4)] by (simp add: service_inv_def)
  moreover have "reconnectIntervalId w1 = None" unfolding w1 onopen_def by simp
  ultimately have "timers w1 = []" by (auto simp: timer_inv_def)
  moreover have "maxReconnectDelay w = 30000"
    using assms(2) unfolding current_inv_def by blast
  ultimately show ?thesis
    using assms(3) i c unfolding just_connected_def w1
    by (simp add: onopen_def)
qed

lemma delay_kept:
  assumes "step parse call e w = Some w'" and "\<not> is_TimerFire e" and "reconnectDelay w = 5000"
  shows "reconnectDelay w' = 5000"
  using assms by (cases e) (auto simp: onerror_def onMessage_def split: if_splits)

lemma delay_kept_run:
  assumes "run parse call es w = Some w'" and "\<forall>e \<in> set es. \<not> is_TimerFire e"
    and "reconnectDelay w = 5000"
  shows "reconnectDelay w' = 5000"
  using assms
proof (induction es arbitrary: w)
  case Nil
  then show ?case by simp
next
  case (Cons e es)
  from Cons.prems(1) obtain w1 where s: "step parse call e w = Some w1"
    and r: "run parse call es w1 = Some w'"
    by (auto split: option.splits)
  from Cons.prems(2) have "\<not> is_TimerFire e" "\<forall>e \<in> set es. \<not> is_TimerFire e" by simp_all
  with Cons.IH[OF r] delay_kept[OF s _ Cons.prems(3)] show ?case by blast
qed

lemma failure_schedules_current_delay:
  assumes "service_inv w" and "step parse call (SockClose j) w = Some w'"
  shows "scheduled_delay w' = Some (reconnectDelay w)"
proof -
  from assms(2) have w': "w' = onclose (w\<lparr>sockets := (sockets w)[j := CLOSED]\<rparr>)"
    by (auto split: if_splits)
  have "timers (clearReconnectInterval (w\<lparr>sockets := (sockets w)[j := CLOSED], ws := None\<rparr>)) = []"
    using assms(1)
    by (auto simp: service_inv_def timer_inv_def clearReconnectInterval_def split: option.split)
  then show ?thesis
    unfolding w' onclose_def scheduled_delay_def by simp
qed

lemma throwing_first: "retry_pending_throwing 0 (new_service True a)"
  by (simp add: retry_pending_throwing_def new_service_def connect_def backoff_def
      clearReconnectInterval_def)

lemma throwing_next:
  assumes "retry_pending_throwing k w"
  shows "\<exists>w'. timer_expires parse call w = Some w' \<and> retry_pending_throwing (Suc k) w'"
proof -
  from assms obtain t where t: "reconnectIntervalId w = Some t" "timers w = [(t, backoff k)]"
    and w: "ws w = None" "reconnectDelay w = backoff k" "maxReconnectDelay w = 30000"
      "ctor_throws w"
    by (auto simp: retry_pending_throwing_def)
  let ?w1 = "w\<lparr>timers := [], reconnectDelay := backoff (Suc k)\<rparr>"
  have e: "timer_expires parse call w = Some (connect ?w1)"
    using t w by (simp add: timer_expires_def reconnect_timeout_def backoff_Suc)
  have c: "connect ?w1 = scheduleReconnect (?w1\<lparr>attempts := Suc (attempts w)\<rparr>)"
    using w by (simp add: connect_def)
  have "retry_pending_throwing (Suc k) (connect ?w1)"
    unfolding c using t w
    by (simp add: retry_pending_throwing_def clearReconnectInterval_def)
  with e show ?thesis by blast
qed

lemma throwing_backoff:
  "\<exists>w'. expiries parse call n (new_service True a) = Some w' \<and> retry_pending_throwing n w'"
proof (induction n)
  case 0
  show ?case using throwing_first by simp
next
  case (Suc n)
  then obtain w0 where "expiries parse call n (new_service True a) = Some w0"
    "retry_pending_throwing n w0" by blast
  with throwing_next[of n w0 parse call] show ?case by auto
qed

lemma throwing_delay:
  "\<exists>w'. expiries parse call n (new_service True a) = Some w' \<and>
        scheduled_delay w' = Some (min 30000 (5000 * (3 / 2) ^ n))"
proof -
  from throwing_backoff[of parse call n a] obtain w' where
    "expiries parse call n (new_service True a) = Some w'" "retry_pending_throwing n w'"
    by blast
  then show ?thesis
    by (auto simp: retry_pending_throwing_def scheduled_delay_def backoff_def)
qed

lemma run_append:
  "run parse call (es @ es') w =
     (case run parse call es w of None \<Rightarrow> None | Some w1 \<Rightarrow> run parse call es' w1)"
  by (induction es arbitrary: w) (simp_all split: option.split)

lemma run_single: "run parse call [e] w = step parse call e w"
  by (simp split: option.split)

text \<open>
  A manual close while the reconnect timer is pending, or at any time after the last
  channel has closed, is final: the timer is cancelled and, whatever happens next, no
  further connect attempt is made.
\<close>

lemma disconnect_while_scheduled_is_final:
  assumes "live_channels w = 0" and "timer_inv w"
    and "run parse call es (disconnect w) = Some w'"
  shows "attempts w' = attempts w \<and> live_channels w' = 0 \<and> timers w' = []"
proof -
  have quiet_step: "attempts v' = attempts v \<and> live_channels v' = 0 \<and> timers v' = []"
    if "live_channels v = 0" and "timers v = []" and "step parse call e v = Some v'"
    for e and v v' :: "('a, 'b) WebSocketService"
  proof -
    have closed: "sockets v ! j = CLOSED" if "j < length (sockets v)" for j
      using no_live_all_closed[OF \<open>live_channels v = 0\<close> that] .
    have ti: "timer_inv v" using that(2) by (simp add: timer_inv_def)
    show ?thesis
    proof (cases e)
      case (OnMessage h)
      with that show ?thesis by (auto simp: onMessage_def live_channels_def)
    next
      case Disconnect
      have "sockets (disconnect v) = sockets v"
        using closed
        by (auto simp: disconnect_def Let_def close_socket_def list_update_same_conv
            split: option.split)
      moreover have "timers (disconnect v) = []"
        using timers_clear[OF ti] by (simp add: disconnect_def Let_def split: option.split)
      ultimately show ?thesis
        using that Disconnect by (auto simp: live_channels_def)
    qed (use that closed in \<open>auto split: if_splits\<close>)
  qed
  have quiet_run: "attempts v' = attempts v \<and> live_channels v' = 0 \<and> timers v' = []"
    if "live_channels v = 0" and "timers v = []" and "run parse call es v = Some v'"
    for v v' :: "('a, 'b) WebSocketService"
    using that
  proof (induction es arbitrary: v)
    case Nil
    then show ?case by simp
  next
    case (Cons e es)
    from Cons.prems(3) obtain v1 where s: "step parse call e v = Some v1"
      and r: "run parse call es v1 = Some v'"
      by (auto split: option.splits)
    from quiet_step[OF Cons.prems(1,2) s] Cons.IH[OF _ _ r] show ?case by simp
  qed
  have closed: "sockets w ! j = CLOSED" if "j < length (sockets w)" for j
    using no_live_all_closed[OF assms(1) that] .
  have "sockets (disconnect w) = sockets w"
    using closed
    by (auto simp: disconnect_def Let_def close_socket_def list_update_same_conv
        split: option.split)
  then have "live_channels (disconnect w) = 0"
    using assms(1) by (simp add: live_channels_def)
  moreover have "timers (disconnect w) = []"
    using timers_clear[OF assms(2)] by (simp add: disconnect_def Let_def split: option.split)
  ultimately show ?thesis using quiet_run[OF _ _ assms(3)] by simp
qed

section \<open>Frames of the push channel\<close>




text \<open>
  C6. A frame that does not parse, has no discriminant, or has a discriminant other than
  the three the callback branches on leaves the application state as it was; so the state
  after any sequence of frames is the state after the recognized frames among them alone.
  This holds for every parser and every state of the service.
\<close>

theorem unrecognized_frames_ignored:
  "(\<not> recognized parse raw \<longrightarrow> app (onmessage parse dashboard_call raw w) = app w) \<and>
   app (process_frames parse raws w) =
     app (process_frames parse (filter (recognized parse) raws) w)"
  using onmessage_dropped(1) process_frames_filter by blast

theorem unrecognized_frames_ignored_witness:
  "\<not> recognized
       (\<lambda>raw. if raw = ''s'' then Some (JObj [(''type'', JStr ''intersection_status'')])
              else if raw = ''n'' then Some (JObj [(''type'', JStr ''noise'')])
              else if raw = ''m'' then Some (JObj [(''data'', JNum 1)])
              else None) ''n'' \<and>
   app (onmessage
          (\<lambda>raw. if raw = ''s'' then Some (JObj [(''type'', JStr ''intersection_status'')])
              else if raw = ''n'' then Some (JObj [(''type'', JStr ''noise'')])
              else if raw = ''m'' then Some (JObj [(''data'', JNum 1)])
              else None)
          dashboard_call ''n'' (onMessage () (new_service False initial_dashboard)))
     = app (onMessage () (new_service False initial_dashboard) :: (unit, dashboard) WebSocketService) \<and>
   app (process_frames
          (\<lambda>raw. if raw = ''s'' then Some (JObj [(''type'', JStr ''intersection_status'')])
              else if raw = ''n'' then Some (JObj [(''type'', JStr ''noise'')])
              else if raw = ''m'' then Some (JObj [(''data'', JNum 1)])
              else None)
          [''not json'', ''s'', ''n'', ''m'']
          (onMessage () (new_service False initial_dashboard)))
     = app (process_frames
          (\<lambda>raw. if raw = ''s'' then Some (JObj [(''type'', JStr ''intersection_status'')])
              else if raw = ''n'' then Some (JObj [(''type'', JStr ''noise'')])
              else if raw = ''m'' then Some (JObj [(''data'', JNum 1)])
              else None)
          [''s'']
          (onMessage () (new_service False initial_dashboard)))"
  using unrecognized_frames_ignored
    [of "\<lambda>raw. if raw = ''s'' then Some (JObj [(''type'', JStr ''intersection_status'')])
              else if raw = ''n'' then Some (JObj [(''type'', JStr ''noise'')])
              else if raw = ''m'' then Some (JObj [(''data'', JNum 1)])
              else None"
        "''n''" "onMessage () (new_service False initial_dashboard)"
        "[''not json'', ''s'', ''n'', ''m'']"]
  by (simp add: recognized_def frame_type_def)

text \<open>
  C7. After a non-empty sequence of frames of kind \<^verbatim>\<open>emergency_alert\<close> has been
  processed, from any state, the emergency flag is the active flag of the last frame
  (\<^verbatim>\<open>false\<close> when that frame carries none).
\<close>

theorem emergency_alert_last_wins:
  assumes "ds \<noteq> []" and "\<forall>d \<in> set ds. frame_type d = Some ''emergency_alert''"
  shows "emergencyActive (fold onMessage_handler ds s) = alert_active (last ds)"
  using assms
proof (induction ds arbitrary: s)
  case Nil
  then show ?case by simp
next
  case (Cons d ds)
  show ?case
  proof (cases "ds = []")
    case True
    with Cons.prems show ?thesis by (simp add: alert_frame_flag)
  next
    case False
    with Cons show ?thesis by simp
  qed
qed

theorem emergency_alert_last_wins_witness:
  "emergencyActive
     (fold onMessage_handler
        [JObj [(''type'', JStr ''emergency_alert''), (''data'', JObj [(''is_active'', JBool True)])],
         JObj [(''type'', JStr ''emergency_alert''), (''data'', JObj [(''is_active'', JBool False)])]]
        initial_dashboard) = JBool False \<and>
   emergencyActive
     (fold onMessage_handler
        [JObj [(''type'', JStr ''emergency_alert''), (''data'', JObj [(''is_active'', JBool False)])],
         JObj [(''type'', JStr ''emergency_alert''), (''data'', JObj [(''is_active'', JBool True)])]]
        initial_dashboard) = JBool True"
  using
    emergency_alert_last_wins
      [of "[JObj [(''type'', JStr ''emergency_alert''), (''data'', JObj [(''is_active'', JBool True)])],
            JObj [(''type'', JStr ''emergency_alert''), (''data'', JObj [(''is_active'', JBool False)])]]"
          initial_dashboard]
    emergency_alert_last_wins
      [of "[JObj [(''type'', JStr ''emergency_alert''), (''data'', JObj [(''is_active'', JBool False)])],
            JObj [(''type'', JStr ''emergency_alert''), (''data'', JObj [(''is_active'', JBool True)])]]"
          initial_dashboard]
  by (simp add: frame_type_def alert_active_def opt_prop_def coalesce_def)

text \<open>
  C4, as stated, fails: the emergency flag is a property of the intersection snapshot, and
  a frame of kind \<^verbatim>\<open>intersection_status\<close> replaces the snapshot. Below, an alert sets
  the flag to true and the next status frame sets it to false.
\<close>

theorem status_frame_changes_emergency_flag:
  "frame_type (JObj [(''type'', JStr ''intersection_status''),
                     (''data'', JObj [(''system_status'', JStr ''operational''),
                                      (''emergency_mode_active'', JBool False)])])
     = Some ''intersection_status'' \<and>
   emergencyActive
     (onMessage_handler
        (JObj [(''type'', JStr ''emergency_alert''), (''data'', JObj [(''is_active'', JBool True)])])
        initial_dashboard) = JBool True \<and>
   emergencyActive
     (onMessage_handler
        (JObj [(''type'', JStr ''intersection_status''),
               (''data'', JObj [(''system_status'', JStr ''operational''),
                                (''emergency_mode_active'', JBool False)])])
        (onMessage_handler
           (JObj [(''type'', JStr ''emergency_alert''),
                  (''data'', JObj [(''is_active'', JBool True)])])
           initial_dashboard)) = JBool False"
  by (simp add: frame_type_def onMessage_handler_def emergencyActive_def opt_prop_def
      emergency_alert_update_def coalesce_def derive_running_def initial_dashboard_def
      toLowerCase_def lower_char_def)

text \<open>
  C4, amended. The emergency flag changes only when the intersection snapshot is assigned:
  by an alert frame (to the frame's active flag), by a status frame (to the
  \<^verbatim>\<open>emergency_mode_active\<close> property of the payload, absent or not), by the close and
  error handlers (which clear it) and when the initial status request settles. No other
  event of the component changes it; in particular a frame of kind
  \<^verbatim>\<open>vehicle_detection\<close> and a frame that is dropped do not.
\<close>

theorem emergency_flag_writers:
  "(\<not> writes_emergency e \<longrightarrow> emergencyActive (dash_step e s) = emergencyActive s) \<and>
   (frame_type data = Some ''intersection_status'' \<longrightarrow>
      emergencyActive (dash_step (Message data) s) =
        opt_prop (get_prop data ''data'') ''emergency_mode_active'') \<and>
   (frame_type data = Some ''emergency_alert'' \<longrightarrow>
      emergencyActive (dash_step (Message data) s) = alert_active data) \<and>
   emergencyActive (dash_step Closed s) = JUndefined \<and>
   emergencyActive (dash_step Errored s) = JUndefined"
proof -
  have "emergencyActive (dash_step (Message data) s) =
        opt_prop (get_prop data ''data'') ''emergency_mode_active''"
    if "frame_type data = Some ''intersection_status''"
    by (simp add: emergencyActive_def handler_status[OF that] split: sum.split option.split)
  moreover have "emergencyActive (dash_step e s) = emergencyActive s" if "\<not> writes_emergency e"
    by (simp add: emergencyActive_def dash_step_no_writer[OF that])
  moreover have "emergencyActive (dash_step Closed s) = JUndefined"
    "emergencyActive (dash_step Errored s) = JUndefined"
    by (simp_all add: emergencyActive_def onClose_handler_def onError_handler_def opt_prop_def)
  ultimately show ?thesis using alert_frame_flag by simp
qed

theorem emergency_flag_writers_witness:
  "\<not> writes_emergency
       (Message (JObj [(''type'', JStr ''vehicle_detection''), (''data'', JObj [])])) \<and>
   emergencyActive
     (dash_step (Message (JObj [(''type'', JStr ''vehicle_detection''), (''data'', JObj [])]))
        (initial_dashboard\<lparr>intersectionStatus := JObj [(''emergency_mode_active'', JBool True)]\<rparr>))
     = JBool True \<and>
   emergencyActive
     (dash_step
        (Message (JObj [(''type'', JStr ''intersection_status''),
                        (''data'', JObj [(''emergency_mode_active'', JBool False)])]))
        (initial_dashboard\<lparr>intersectionStatus := JObj [(''emergency_mode_active'', JBool True)]\<rparr>))
     = JBool False"
proof -
  let ?s = "initial_dashboard\<lparr>intersectionStatus := JObj [(''emergency_mode_active'', JBool True)]\<rparr>"
  let ?e = "Message (JObj [(''type'', JStr ''vehicle_detection''), (''data'', JObj [])])"
  let ?d = "JObj [(''type'', JStr ''intersection_status''),
                  (''data'', JObj [(''emergency_mode_active'', JBool False)])]"
  have ne: "\<not> writes_emergency ?e" and t: "frame_type ?d = Some ''intersection_status''"
    by (simp_all add: frame_type_def)
  have "emergencyActive (dash_step ?e ?s) = emergencyActive ?s"
    using emergency_flag_writers [of ?e ?s ?d] ne by blast
  moreover have "emergencyActive ?s = JBool True"
    by (simp add: emergencyActive_def opt_prop_def)
  moreover have "emergencyActive (dash_step (Message ?d) ?s) = JBool False"
    using emergency_flag_writers [of ?e ?s ?d] t by (simp add: opt_prop_def)
  ultimately show ?thesis using ne by simp
qed

section \<open>Responses and commands\<close>

text \<open>
  C9, as stated, fails: when the status is not a success and the body is JSON without a
  \<^verbatim>\<open>detail\<close>, the message is not the status text but the fixed text with the status
  code.
\<close>

theorem handleResponse_detail_counterexample:
  "\<not> ok \<lparr>status = 500, statusText = ''Internal Server Error'', json = Some (JObj [])\<rparr> \<and>
   handleResponse \<lparr>status = 500, statusText = ''Internal Server Error'', json = Some (JObj [])\<rparr>
     = Inl (Error (JStr ''HTTP error! Status: 500'')) \<and>
   handleResponse \<lparr>status = 500, statusText = ''Internal Server Error'', json = Some (JObj [])\<rparr>
     \<noteq> Inl (Error (JStr ''Internal Server Error''))"
  by (simp add: handleResponse_def ok_def opt_prop_def string_of_nat.simps)

text \<open>
  C9, amended. On a status outside 200..299 the handler throws; the message is the body's
  \<^verbatim>\<open>detail\<close> when the body is JSON and its \<^verbatim>\<open>detail\<close> is truthy, the text
  \<^verbatim>\<open>HTTP error! Status: \<close> followed by the status code when the body is JSON without a
  truthy \<^verbatim>\<open>detail\<close>, and, when the body is not JSON, the status text, or
  \<^verbatim>\<open>Unknown fetch error\<close> when the status text is empty. On 202 and 204 it returns the
  status code and the status text as a payload, whatever the body is. On any other success
  status it returns the parsed body, and throws when the body is not JSON. So it throws
  exactly when the status is not a success or a success status other than 202 and 204
  comes with a body that is not JSON.
\<close>

theorem handleResponse_contract:
  "(\<not> ok r \<longrightarrow>
      handleResponse r =
        Inl (Error
          (case json r of
             Some body \<Rightarrow>
               if truthy (opt_prop body ''detail'') then opt_prop body ''detail''
               else JStr (''HTTP error! Status: '' @ string_of_nat (status r))
           | None \<Rightarrow>
               if statusText r \<noteq> [] then JStr (statusText r)
               else JStr ''Unknown fetch error''))) \<and>
   (ok r \<and> (status r = 202 \<or> status r = 204) \<longrightarrow>
      (\<forall>body. handleResponse (r\<lparr>json := body\<rparr>) =
         Inr (JObj [(''status'', JNum (of_nat (status r))), (''message'', JStr (statusText r))]))) \<and>
   (ok r \<and> status r \<noteq> 202 \<and> status r \<noteq> 204 \<longrightarrow>
      handleResponse r =
        (case json r of
           Some v \<Rightarrow> Inr v
         | None \<Rightarrow> Inl (Error (JStr ''Failed to parse API response JSON.'')))) \<and>
   ((\<exists>e. handleResponse r = Inl e) \<longleftrightarrow>
      (\<not> ok r \<or> (status r \<noteq> 202 \<and> status r \<noteq> 204 \<and> json r = None)))"
proof -
  have bad: "handleResponse r =
        Inl (Error
          (case json r of
             Some body \<Rightarrow>
               if truthy (opt_prop body ''detail'') then opt_prop body ''detail''
               else JStr (''HTTP error! Status: '' @ string_of_nat (status r))
           | None \<Rightarrow>
               if statusText r \<noteq> [] then JStr (statusText r)
               else JStr ''Unknown fetch error''))" if "\<not> ok r"
    using that by (simp add: handleResponse_def Let_def opt_prop_def split: option.split)
  have nobody: "handleResponse (r\<lparr>json := body\<rparr>) =
         Inr (JObj [(''status'', JNum (of_nat (status r))), (''message'', JStr (statusText r))])"
    if "ok r" and "status r = 202 \<or> status r = 204" for body
    using that by (auto simp: handleResponse_def ok_def)
  have body: "handleResponse r =
        (case json r of
           Some v \<Rightarrow> Inr v
         | None \<Rightarrow> Inl (Error (JStr ''Failed to parse API response JSON.'')))"
    if "ok r" and "status r \<noteq> 202" and "status r \<noteq> 204"
    using that by (simp add: handleResponse_def)
  have fails: "(\<exists>e. handleResponse r = Inl e) \<longleftrightarrow>
      (\<not> ok r \<or> (status r \<noteq> 202 \<and> status r \<noteq> 204 \<and> json r = None))"
  proof (cases "ok r")
    case False
    then show ?thesis using bad by simp
  next
    case True
    show ?thesis
    proof (cases "status r = 202 \<or> status r = 204")
      case True
      with \<open>ok r\<close> nobody[of "json r"] show ?thesis by auto
    next
      case False
      with \<open>ok r\<close> body show ?thesis by (auto split: option.splits)
    qed
  qed
  show ?thesis using bad nobody body fails by blast
qed

theorem handleResponse_contract_witness:
  "handleResponse \<lparr>status = 404, statusText = ''Not Found'',
                   json = Some (JObj [(''detail'', JStr ''No such intersection'')])\<rparr>
     = Inl (Error (JStr ''No such intersection'')) \<and>
   handleResponse \<lparr>status = 502, statusText = ''Bad Gateway'', json = None\<rparr>
     = Inl (Error (JStr ''Bad Gateway'')) \<and>
   handleResponse \<lparr>status = 202, statusText = ''Accepted'', json = None\<rparr>
     = Inr (JObj [(''status'', JNum 202), (''message'', JStr ''Accepted'')]) \<and>
   handleResponse \<lparr>status = 200, statusText = ''OK'', json = Some (JObj [(''status'', JStr ''success'')])\<rparr>
     = Inr (JObj [(''status'', JStr ''success'')]) \<and>
   handleResponse \<lparr>status = 200, statusText = ''OK'', json = None\<rparr>
     = Inl (Error (JStr ''Failed to parse API response JSON.''))"
proof -
  let ?a = "\<lparr>status = 404, statusText = ''Not Found'',
             json = Some (JObj [(''detail'', JStr ''No such intersection'')])\<rparr>"
  let ?b = "\<lparr>status = 502, statusText = ''Bad Gateway'', json = None\<rparr>"
  let ?c = "\<lparr>status = 202, statusText = ''Accepted'', json = None :: jsval option\<rparr>"
  let ?d = "\<lparr>status = 200, statusText = ''OK'', json = Some (JObj [(''status'', JStr ''success'')])\<rparr>"
  let ?e = "\<lparr>status = 200, statusText = ''OK'', json = None :: jsval option\<rparr>"
  have "handleResponse ?a = Inl (Error (JStr ''No such intersection''))"
    using handleResponse_contract [of ?a] by (simp add: ok_def opt_prop_def)
  moreover have "handleResponse ?b = Inl (Error (JStr ''Bad Gateway''))"
    using handleResponse_contract [of ?b] by (simp add: ok_def)
  moreover have "handleResponse ?c
      = Inr (JObj [(''status'', JNum 202), (''message'', JStr ''Accepted'')])"
    using handleResponse_contract [of ?c] by (simp add: ok_def)
  moreover have "handleResponse ?d = Inr (JObj [(''status'', JStr ''success'')])"
    using handleResponse_contract [of ?d] by (simp add: ok_def)
  moreover have "handleResponse ?e = Inl (Error (JStr ''Failed to parse API response JSON.''))"
    using handleResponse_contract [of ?e] by (simp add: ok_def)
  ultimately show ?thesis by blast
qed

lemma requests_fold_callApi:
  "requests (fold callApi_begin apiCalls s) = requests s @ apiCalls"
  by (induction apiCalls arbitrary: s) (simp_all add: callApi_begin_def)

text \<open>
  C3, as stated, fails: \<^verbatim>\<open>callApi\<close> and \<^verbatim>\<open>onDrop\<close> have no check for a request in
  flight. A second execution of the same command, started while the first has set the
  loading flag and has not settled, sends the request again. The same happens in a run
  in which the dropzone is enabled at each drop: an image is dropped, the channel opens
  and starts the initial status request, that request settles and clears the loading
  flag, and a second image is dropped while the first upload is still pending.
\<close>

theorem callApi_no_guard_counterexample:
  "isLoading (callApi_begin ''startSimulation'' initial_dashboard) \<and>
   requests (callApi_begin ''startSimulation'' (callApi_begin ''startSimulation'' initial_dashboard))
     = [''startSimulation'', ''startSimulation''] \<and>
   requests (onDrop_begin 1 (onDrop_begin 1 initial_dashboard))
     = [''detectVehicles'', ''detectVehicles''] \<and>
   \<not> dropzone_disabled initial_dashboard \<and>
   dropzone_disabled (dash_step (DropBegin 1) initial_dashboard) \<and>
   \<not> dropzone_disabled
       (dash_step (InitialStatusSettled (Inr (JObj [(''system_status'', JStr ''offline'')])))
          (dash_step (Opened initial_dashboard)
             (dash_step (DropBegin 1) initial_dashboard))) \<and>
   requests
     (dash_step (DropBegin 1)
        (dash_step (InitialStatusSettled (Inr (JObj [(''system_status'', JStr ''offline'')])))
           (dash_step (Opened initial_dashboard)
              (dash_step (DropBegin 1) initial_dashboard))))
     = [''detectVehicles'', ''getIntersectionStatus'', ''detectVehicles'']"
  by (simp add: callApi_begin_def onDrop_begin_def initial_dashboard_def dropzone_disabled_def
      onOpen_handler_def fetchInitialStatus_begin_def fetchInitialStatus_settled_def
      derive_running_def opt_prop_def toLowerCase_def lower_char_def)

text \<open>
  C3, amended. Neither \<^verbatim>\<open>callApi\<close> nor \<^verbatim>\<open>onDrop\<close> rejects an execution. Every
  execution of \<^verbatim>\<open>callApi\<close> invokes its request function exactly once, in whatever
  state, also while an earlier execution of the same request has not settled; so any
  sequence of executions makes as many transport calls, in the same order. Every
  \<^verbatim>\<open>onDrop\<close> with a file invokes \<^verbatim>\<open>detectVehicles\<close> exactly once, in whatever state;
  without a file it does nothing. Both set the loading flag before the request, and in
  every state in which the flag is set the start/stop button and the dropzone are
  disabled. When its request settles, \<^verbatim>\<open>callApi\<close> clears the flag, changes nothing
  else, and hands the result or the error on to its caller. When its request settles,
  \<^verbatim>\<open>onDrop\<close> clears the flag too; it stores a result as the detection result, and
  switches to the detection tab unless the result is null or undefined; a failure it
  keeps to itself, changing nothing but the flag. The flag is one for all requests: the
  settling of a command, of an upload, of the initial status request or of the analytics
  request clears it, whatever else is still pending.
\<close>

theorem commands_always_issued:
  "requests (callApi_begin apiCall s) = requests s @ [apiCall] \<and>
   requests (fold callApi_begin apiCalls s) = requests s @ apiCalls \<and>
   (0 < n \<longrightarrow> requests (onDrop_begin n s) = requests s @ [''detectVehicles''] \<and>
              isLoading (onDrop_begin n s)) \<and>
   onDrop_begin 0 s = s \<and>
   isLoading (callApi_begin apiCall s) \<and>
   button_disabled (callApi_begin apiCall s) \<and>
   dropzone_disabled (callApi_begin apiCall s) \<and>
   (isLoading s \<longrightarrow> button_disabled s \<and> dropzone_disabled s) \<and>
   callApi_settled r s = (r, s\<lparr>isLoading := False\<rparr>) \<and>
   onDrop_settled (Inl e) s = s\<lparr>isLoading := False\<rparr> \<and>
   onDrop_settled (Inr result) s =
     (if nullish result then s\<lparr>detectionResults := result, isLoading := False\<rparr>
      else s\<lparr>detectionResults := result, activeTab := detection, isLoading := False\<rparr>) \<and>
   \<not> isLoading (dash_step (CallApiSettled r) s) \<and>
   \<not> isLoading (dash_step (DropSettled r) s) \<and>
   \<not> isLoading (dash_step (InitialStatusSettled r) s) \<and>
   \<not> isLoading (dash_step (AnalyticsSettled r) s)"
proof -
  have start: "requests (callApi_begin apiCall s) = requests s @ [apiCall]"
    "isLoading (callApi_begin apiCall s)"
    "button_disabled (callApi_begin apiCall s)"
    "dropzone_disabled (callApi_begin apiCall s)"
    by (simp_all add: callApi_begin_def button_disabled_def dropzone_disabled_def)
  have drop: "requests (onDrop_begin n s) = requests s @ [''detectVehicles''] \<and>
      isLoading (onDrop_begin n s)" if "0 < n"
    using that by (simp add: onDrop_begin_def)
  have nofile: "onDrop_begin 0 s = s"
    by (simp add: onDrop_begin_def)
  have disabled: "button_disabled s \<and> dropzone_disabled s" if "isLoading s"
    using that by (simp add: button_disabled_def dropzone_disabled_def)
  have settle: "callApi_settled r s = (r, s\<lparr>isLoading := False\<rparr>)"
    "onDrop_settled (Inl e) s = s\<lparr>isLoading := False\<rparr>"
    "onDrop_settled (Inr result) s =
       (if nullish result then s\<lparr>detectionResults := result, isLoading := False\<rparr>
        else s\<lparr>detectionResults := result, activeTab := detection, isLoading := False\<rparr>)"
    by (simp_all add: callApi_settled_def onDrop_settled_def)
  have shared: "\<not> isLoading (dash_step (CallApiSettled r) s)"
    "\<not> isLoading (dash_step (DropSettled r) s)"
    "\<not> isLoading (dash_step (InitialStatusSettled r) s)"
    "\<not> isLoading (dash_step (AnalyticsSettled r) s)"
    by (simp_all add: callApi_settled_def onDrop_settled_def fetchInitialStatus_settled_def
        loadAnalytics_settled_def Let_def split: sum.split option.split)
  show ?thesis
    using start requests_fold_callApi[of apiCalls s] drop nofile disabled settle shared
    by blast
qed

theorem commands_always_issued_witness:
  "requests (fold callApi_begin [''startSimulation'', ''startSimulation'', ''stopSimulation'']
               initial_dashboard)
     = [''startSimulation'', ''startSimulation'', ''stopSimulation''] \<and>
   requests (onDrop_begin 1 (callApi_begin ''startSimulation'' initial_dashboard))
     = [''startSimulation'', ''detectVehicles''] \<and>
   button_disabled (callApi_begin ''startSimulation'' initial_dashboard) \<and>
   dropzone_disabled (onDrop_begin 1 initial_dashboard) \<and>
   onDrop_settled (Inl (Error (JStr ''Failed to parse API response JSON.'')))
     (onDrop_begin 1 initial_dashboard)
     = initial_dashboard\<lparr>requests := [''detectVehicles'']\<rparr>"
proof -
  let ?cs = "[''startSimulation'', ''startSimulation'', ''stopSimulation'']"
  let ?s1 = "callApi_begin ''startSimulation'' initial_dashboard"
  let ?d1 = "onDrop_begin 1 initial_dashboard"
  let ?err = "Error (JStr ''Failed to parse API response JSON.'')"
  have pos: "(0::nat) < 1" by simp
  have r0: "requests initial_dashboard = []"
    by (simp add: initial_dashboard_def)
  note at_start = commands_always_issued
    [where apiCall = "''startSimulation''" and s = initial_dashboard and apiCalls = ?cs
       and n = 1 and r = "Inl ?err" and e = ?err and result = JNull]
  note at_s1 = commands_always_issued
    [where apiCall = "''startSimulation''" and s = ?s1 and apiCalls = ?cs
       and n = 1 and r = "Inl ?err" and e = ?err and result = JNull]
  note at_d1 = commands_always_issued
    [where apiCall = "''startSimulation''" and s = ?d1 and apiCalls = ?cs
       and n = 1 and r = "Inl ?err" and e = ?err and result = JNull]
  have "requests (fold callApi_begin ?cs initial_dashboard) = requests initial_dashboard @ ?cs"
    using at_start by blast
  then have a: "requests (fold callApi_begin ?cs initial_dashboard) = ?cs"
    unfolding r0 by simp
  have "requests ?s1 = requests initial_dashboard @ [''startSimulation'']"
    using at_start by blast
  then have s1: "requests ?s1 = [''startSimulation'']"
    unfolding r0 by simp
  have c: "button_disabled ?s1"
    using at_start by blast
  have "requests (onDrop_begin 1 ?s1) = requests ?s1 @ [''detectVehicles'']"
    using at_s1 pos by blast
  then have b: "requests (onDrop_begin 1 ?s1) = [''startSimulation'', ''detectVehicles'']"
    unfolding s1 by simp
  have l1: "isLoading ?d1"
    using at_start pos by blast
  have d: "dropzone_disabled ?d1"
    using at_d1 l1 by blast
  have "onDrop_settled (Inl ?err) ?d1 = ?d1\<lparr>isLoading := False\<rparr>"
    using at_d1 by blast
  then have e: "onDrop_settled (Inl ?err) ?d1
      = initial_dashboard\<lparr>requests := [''detectVehicles'']\<rparr>"
    by (simp add: onDrop_begin_def initial_dashboard_def)
  show ?thesis using a b c d e by blast
qed

section \<open>Connection, retry and the handler slot\<close>

text \<open>
  C1. A manual close should cancel the pending reconnect and end the connect attempts of
  the instance, in whatever state it is called. The code keeps this only when no channel
  is live (\<open>disconnect_while_scheduled_is_final\<close>). On a live channel,
  \<^verbatim>\<open>disconnect\<close> closes the socket but leaves its \<^verbatim>\<open>onclose\<close> handler attached, and
  that handler schedules a reconnect whatever the cause of the close. Below, an instance
  connects, is disconnected by the application (one attempt so far, the socket closing, no
  timer), then the close event of the socket arrives and arms the timer, and when the
  timer fires a second attempt constructs a second socket.
\<close>

theorem reconnect_after_disconnect:
  "map_option (\<lambda>w. (attempts w, sockets w, ws w, messageHandler w))
     (run (\<lambda>raw. None) (\<lambda>h data a. a) [SockOpen 0, Disconnect]
        (new_service False () :: (unit, unit) WebSocketService))
     = Some (1, [CLOSING], None, None) \<and>
   map_option (\<lambda>w. (attempts w, sockets w, ws w, messageHandler w))
     (run (\<lambda>raw. None) (\<lambda>h data a. a) [SockOpen 0, Disconnect, SockClose 0, TimerFire 1]
        (new_service False () :: (unit, unit) WebSocketService))
     = Some (2, [CLOSED, CONNECTING], Some 1, None)"
  by (simp add: new_service_def connect_def onopen_def disconnect_def onclose_def
      reconnect_timeout_def close_socket_def clearReconnectInterval_def scheduleReconnect_def)

text \<open>
  C5, as stated, fails for a channel that is connecting: the guard of \<^verbatim>\<open>connect\<close>
  tests for an open channel only, so on an instance that is connecting it constructs a
  second socket.
\<close>

theorem connect_while_connecting_counterexample:
  "ws (new_service False () :: (unit, unit) WebSocketService) = Some 0 \<and>
   sockets (new_service False () :: (unit, unit) WebSocketService) = [CONNECTING] \<and>
   sockets (connect (new_service False () :: (unit, unit) WebSocketService))
     = [CONNECTING, CONNECTING] \<and>
   live_channels (connect (new_service False () :: (unit, unit) WebSocketService)) = 2"
  by (simp add: new_service_def connect_def live_channels_def)

text \<open>
  C5, amended. \<^verbatim>\<open>connect\<close> on an instance whose channel is open changes nothing. It
  is private and runs only in the constructor and in the callback of the reconnect timer,
  and in every state an instance reaches from its construction, by events of its sockets
  and timer and by calls of its public methods, at most one channel is not closed.
\<close>

theorem one_live_channel:
  "(isConnected w \<longrightarrow> connect w = w) \<and>
   (run parse call es (new_service throws a) = Some w' \<longrightarrow> live_channels w' \<le> 1)"
proof -
  have "connect w = w" if "isConnected w"
    using that by (simp add: isConnected_def connect_def)
  moreover have "live_channels w' \<le> 1" if "run parse call es (new_service throws a) = Some w'"
    using inv_run[OF inv_new_service that] by (simp add: service_inv_def)
  ultimately show ?thesis by blast
qed

theorem one_live_channel_witness:
  "isConnected
     (the (run (\<lambda>raw. None) (\<lambda>h data a. a) [SockOpen 0]
             (new_service False () :: (unit, unit) WebSocketService))) \<and>
   connect
     (the (run (\<lambda>raw. None) (\<lambda>h data a. a) [SockOpen 0]
             (new_service False () :: (unit, unit) WebSocketService)))
     = the (run (\<lambda>raw. None) (\<lambda>h data a. a) [SockOpen 0]
             (new_service False () :: (unit, unit) WebSocketService)) \<and>
   live_channels
     (the (run (\<lambda>raw. None) (\<lambda>h data a. a) [SockOpen 0, SockClose 0, TimerFire 1]
             (new_service False () :: (unit, unit) WebSocketService))) \<le> 1"
proof -
  let ?n = "new_service False () :: (unit, unit) WebSocketService"
  let ?r1 = "run (\<lambda>raw. None) (\<lambda>h data a. a) [SockOpen 0] ?n"
  let ?r2 = "run (\<lambda>raw. None) (\<lambda>h data a. a) [SockOpen 0, SockClose 0, TimerFire 1] ?n"
  have c: "isConnected (the ?r1)"
    by (simp add: new_service_def connect_def onopen_def isConnected_def
        clearReconnectInterval_def)
  obtain w2 where r2: "?r2 = Some w2"
    by (simp add: new_service_def connect_def onopen_def onclose_def reconnect_timeout_def
        clearReconnectInterval_def scheduleReconnect_def)
  have "connect (the ?r1) = the ?r1"
    using one_live_channel [of "the ?r1" "\<lambda>raw. None" "\<lambda>h data a. a" "[]" False "()" ?n] c
    by blast
  moreover have "live_channels (the ?r2) \<le> 1"
    using one_live_channel [of ?n "\<lambda>raw. None" "\<lambda>h data a. a"
        "[SockOpen 0, SockClose 0, TimerFire 1]" False "()" w2] r2
    by simp
  ultimately show ?thesis using c by blast
qed

text \<open>
  C2, as stated, fails by one step: the timer armed by the first failure has the base
  delay of 5000 ms, where \<open>min 30000 (5000 * 1.5 ^ N)\<close> is 7500 ms for \<open>N = 1\<close>.
\<close>

theorem backoff_off_by_one_counterexample:
  "map_option scheduled_delay
     (failures (\<lambda>raw. None) (\<lambda>h data a. a) 1
        (new_service False () :: (unit, unit) WebSocketService)) = Some (Some 5000) \<and>
   min 30000 (5000 * (3 / 2) ^ 1) = (7500 :: rat)"
  by (simp add: new_service_def connect_def channel_fails_def onclose_def
      scheduled_delay_def clearReconnectInterval_def scheduleReconnect_def)

text \<open>
  C2, amended. From an instance that has just been constructed or has just had a
  successful open, after \<open>N \<ge> 1\<close> failures in a row the reconnect timer is armed with
  \<open>min 30000 (5000 * 1.5 ^ (N - 1))\<close> ms. The construction and every open event of a
  run lead to such a state. After an open event, the first failure that follows, with no
  timer expiry between them, arms the timer with 5000 ms. When it is the constructor of
  the socket that fails, the failure in the constructor of the service and \<open>n\<close> failed
  retries, \<open>n + 1\<close> failures in all, arm the timer with \<open>min 30000 (5000 * 1.5 ^ n)\<close> ms.
\<close>

theorem backoff_sequence:
  "(just_connected w \<and> 1 \<le> N \<longrightarrow>
      (\<exists>w'. failures parse call N w = Some w' \<and>
            scheduled_delay w' = Some (min 30000 (5000 * (3 / 2) ^ (N - 1))))) \<and>
   just_connected (new_service False a) \<and>
   (run parse call es (new_service False a) = Some v \<and>
    step parse call (SockOpen i) v = Some v1 \<longrightarrow> just_connected v1) \<and>
   (run parse call es (new_service throws a) = Some v \<and>
    step parse call (SockOpen i) v = Some v1 \<and>
    run parse call es' v1 = Some v2 \<and> (\<forall>e \<in> set es'. \<not> is_TimerFire e) \<and>
    step parse call (SockClose j) v2 = Some v3 \<longrightarrow> scheduled_delay v3 = Some 5000) \<and>
   (\<exists>w'. expiries parse call n (new_service True a) = Some w' \<and>
         scheduled_delay w' = Some (min 30000 (5000 * (3 / 2) ^ n)))"
proof -
  have a: "\<exists>w'. failures parse call N w = Some w' \<and>
            scheduled_delay w' = Some (min 30000 (5000 * (3 / 2) ^ (N - 1)))"
    if "just_connected w" and "1 \<le> N"
  proof -
    from that(2) obtain n where N: "N = Suc n" by (cases N) auto
    from failures_backoff[OF that(1), of parse call n] obtain w' where
      "failures parse call (Suc n) w = Some w'" "retry_pending n w'" by blast
    then show ?thesis
      unfolding N using retry_pending_delay[of n w'] by (simp add: backoff_def)
  qed
  have b: "just_connected (new_service False a)"
    by (simp add: just_connected_def new_service_def connect_def)
  have c: "just_connected v1"
    if "run parse call es (new_service False a) = Some v"
      and "step parse call (SockOpen i) v = Some v1"
  proof -
    from invs_run[OF inv_new_service current_inv_new_service that(1)]
    have "service_inv v" "current_inv v" "\<not> ctor_throws v"
      by (simp_all add: new_service_def)
    then show ?thesis using open_gives_just_connected that(2) by blast
  qed
  have d: "scheduled_delay v3 = Some 5000"
    if "run parse call es (new_service throws a) = Some v"
      and "step parse call (SockOpen i) v = Some v1"
      and "run parse call es' v1 = Some v2" and "\<forall>e \<in> set es'. \<not> is_TimerFire e"
      and "step parse call (SockClose j) v2 = Some v3"
  proof -
    from invs_run[OF inv_new_service current_inv_new_service that(1)]
    have v: "service_inv v" "current_inv v" by simp_all
    have v1: "service_inv v1" "current_inv v1"
      using inv_step[OF v(1) that(2)] current_inv_step[OF v that(2)] by simp_all
    have "reconnectDelay v1 = 5000" using that(2) by (auto split: if_splits)
    from delay_kept_run[OF that(3,4) this] have "reconnectDelay v2 = 5000" .
    moreover have "service_inv v2" using invs_run[OF v1 that(3)] by simp
    ultimately show ?thesis using failure_schedules_current_delay[OF _ that(5)] by simp
  qed
  show ?thesis using a b c d throwing_delay[of parse call n a] by blast
qed

theorem backoff_sequence_witness:
  "just_connected (new_service False () :: (unit, unit) WebSocketService) \<and>
   map_option scheduled_delay
     (failures (\<lambda>raw. None) (\<lambda>h data a. a) 3
        (new_service False () :: (unit, unit) WebSocketService)) = Some (Some 11250) \<and>
   map_option scheduled_delay
     (failures (\<lambda>raw. None) (\<lambda>h data a. a) 6
        (new_service False () :: (unit, unit) WebSocketService)) = Some (Some 30000) \<and>
   map_option scheduled_delay
     (run (\<lambda>raw. None) (\<lambda>h data a. a)
        [SockClose 0, TimerFire 1, SockOpen 1, SockMessage 1 ''x'', SockClose 1]
        (new_service False () :: (unit, unit) WebSocketService)) = Some (Some 5000) \<and>
   map_option scheduled_delay
     (expiries (\<lambda>raw. None) (\<lambda>h data a. a) 2
        (new_service True () :: (unit, unit) WebSocketService)) = Some (Some 11250)"
proof -
  let ?n = "new_service False () :: (unit, unit) WebSocketService"
  let ?p = "\<lambda>raw :: string. None :: jsval option"
  let ?c = "\<lambda>(h :: unit) (data :: jsval) (a :: unit). a"
  have jc: "just_connected ?n"
    using backoff_sequence [of ?n 1 ?p ?c "()" "[]" ?n 0 ?n False "[]" ?n 0 ?n] by blast
  have a3: "min 30000 (5000 * (3 / 2) ^ (3 - 1)) = (11250 :: rat)"
    and a6: "min 30000 (5000 * (3 / 2) ^ (6 - 1)) = (30000 :: rat)"
    by (simp_all add: eval_nat_numeral)
  have "just_connected ?n \<and> (1::nat) \<le> 3 \<longrightarrow>
      (\<exists>w'. failures ?p ?c 3 ?n = Some w' \<and>
            scheduled_delay w' = Some (min 30000 (5000 * (3 / 2) ^ (3 - 1))))"
    using backoff_sequence [of ?n 3 ?p ?c "()" "[]" ?n 0 ?n False "[]" ?n 0 ?n]
    by (rule conjunct1)
  with jc obtain w3 where "failures ?p ?c 3 ?n = Some w3"
    "scheduled_delay w3 = Some (min 30000 (5000 * (3 / 2) ^ (3 - 1)))" by auto
  then have f3: "map_option scheduled_delay (failures ?p ?c 3 ?n) = Some (Some 11250)"
    unfolding a3 by simp
  have "just_connected ?n \<and> (1::nat) \<le> 6 \<longrightarrow>
      (\<exists>w'. failures ?p ?c 6 ?n = Some w' \<and>
            scheduled_delay w' = Some (min 30000 (5000 * (3 / 2) ^ (6 - 1))))"
    using backoff_sequence [of ?n 6 ?p ?c "()" "[]" ?n 0 ?n False "[]" ?n 0 ?n]
    by (rule conjunct1)
  with jc obtain w6 where "failures ?p ?c 6 ?n = Some w6"
    "scheduled_delay w6 = Some (min 30000 (5000 * (3 / 2) ^ (6 - 1)))" by auto
  then have f6: "map_option scheduled_delay (failures ?p ?c 6 ?n) = Some (Some 30000)"
    unfolding a6 by simp
  obtain v where v: "run ?p ?c [SockClose 0, TimerFire 1] ?n = Some v"
    by (simp add: new_service_def connect_def onclose_def reconnect_timeout_def
        clearReconnectInterval_def scheduleReconnect_def)
  obtain v1 where v1: "step ?p ?c (SockOpen 1) v = Some v1"
    using v
    by (auto simp: new_service_def connect_def onclose_def reconnect_timeout_def
        clearReconnectInterval_def scheduleReconnect_def)
  obtain v2 where v2: "run ?p ?c [SockMessage 1 ''x''] v1 = Some v2"
    using v v1
    by (auto simp: new_service_def connect_def onclose_def reconnect_timeout_def onopen_def
        clearReconnectInterval_def scheduleReconnect_def)
  obtain v3 where v3: "step ?p ?c (SockClose 1) v2 = Some v3"
    using v v1 v2
    by (auto simp: new_service_def connect_def onclose_def reconnect_timeout_def onopen_def
        onmessage_def clearReconnectInterval_def scheduleReconnect_def)
  have pre: "run ?p ?c [SockClose 0, TimerFire 1] (new_service False ()) = Some v \<and>
      step ?p ?c (SockOpen 1) v = Some v1 \<and>
      run ?p ?c [SockMessage 1 ''x''] v1 = Some v2 \<and>
      (\<forall>e \<in> set [SockMessage 1 ''x'' :: unit event]. \<not> is_TimerFire e) \<and>
      step ?p ?c (SockClose 1) v2 = Some v3"
    using v v1 v2 v3 by simp
  have "scheduled_delay v3 = Some 5000"
    using backoff_sequence
      [of ?n 1 ?p ?c "()" "[SockClose 0, TimerFire 1]" v 1 v1 False "[SockMessage 1 ''x'']" v2 1 v3]
      pre by blast
  moreover have "run ?p ?c [SockClose 0, TimerFire 1, SockOpen 1, SockMessage 1 ''x'', SockClose 1] ?n
      = Some v3"
  proof -
    have "run ?p ?c ([SockClose 0, TimerFire 1] @ [SockOpen 1] @ [SockMessage 1 ''x''] @ [SockClose 1]) ?n
        = Some v3"
      by (simp only: run_append run_single v v1 v2 [unfolded run_single] v3 option.case)
    then show ?thesis by (simp only: append.simps)
  qed
  moreover have "map_option scheduled_delay (expiries ?p ?c 2 (new_service True ()))
      = Some (Some 11250)"
  proof -
    have "\<exists>w'. expiries ?p ?c 2 (new_service True ()) = Some w' \<and>
        scheduled_delay w' = Some (min 30000 (5000 * (3 / 2) ^ 2))"
      using backoff_sequence
        [of ?n 1 ?p ?c "()" "[]" ?n 0 ?n False "[]" ?n 0 ?n 2]
      by blast
    then show ?thesis by (auto simp: power2_eq_square)
  qed
  ultimately show ?thesis using jc f3 f6 by simp
qed

text \<open>
  C10. The service has one handler slot: \<^verbatim>\<open>onMessage\<close> overwrites it. Along every run
  the calls of a handler are exactly the expected deliveries: each message that parses is
  handed once to the handler registered last, or to nobody when the slot is empty; the
  application state changes by these calls only. After \<^verbatim>\<open>disconnect\<close>, as long as no
  handler is registered again, no run delivers anything.
\<close>

theorem single_handler_slot:
  "messageHandler (onMessage h w) = Some h \<and>
   (run parse call es w = Some w' \<longrightarrow>
      delivered w' = delivered w @ expected_deliveries parse es (messageHandler w) \<and>
      messageHandler w' = last_registered es (messageHandler w) \<and>
      app w' = fold (\<lambda>p. call (fst p) (snd p))
                 (expected_deliveries parse es (messageHandler w)) (app w)) \<and>
   (run parse call es (disconnect w) = Some w' \<and> (\<forall>e \<in> set es. \<not> is_OnMessage e) \<longrightarrow>
      delivered w' = delivered w \<and> app w' = app w)"
proof -
  have "delivered w' = delivered w \<and> app w' = app w"
    if "run parse call es (disconnect w) = Some w'" and "\<forall>e \<in> set es. \<not> is_OnMessage e"
    using run_deliveries[OF that(1)] expected_none[OF that(2)] by simp
  moreover have "messageHandler (onMessage h w) = Some h"
    by (simp add: onMessage_def)
  ultimately show ?thesis
    using run_deliveries [of parse call es w w'] by blast
qed

theorem single_handler_slot_witness:
  "map_option delivered
     (run (\<lambda>raw. if raw = ''a'' then Some (JNum 1) else None) (\<lambda>h data a. a @ [h])
        [OnMessage 1, OnMessage 2, SockOpen 0, SockMessage 0 ''a'', SockMessage 0 ''junk'',
         Disconnect, SockClose 0, TimerFire 1, SockOpen 1, SockMessage 1 ''a'']
        (new_service False [] :: (nat, nat list) WebSocketService))
     = Some [(2, JNum 1)] \<and>
   map_option app
     (run (\<lambda>raw. if raw = ''a'' then Some (JNum 1) else None) (\<lambda>h data a. a @ [h])
        [OnMessage 1, OnMessage 2, SockOpen 0, SockMessage 0 ''a'', SockMessage 0 ''junk'',
         Disconnect, SockClose 0, TimerFire 1, SockOpen 1, SockMessage 1 ''a'']
        (new_service False [] :: (nat, nat list) WebSocketService))
     = Some [2]"
proof -
  let ?n = "new_service False [] :: (nat, nat list) WebSocketService"
  let ?p = "\<lambda>raw. if raw = ''a'' then Some (JNum 1) else None"
  let ?c = "\<lambda>(h :: nat) (data :: jsval) (a :: nat list). a @ [h]"
  let ?es = "[OnMessage 1, OnMessage 2, SockOpen 0, SockMessage 0 ''a'', SockMessage 0 ''junk'',
         Disconnect, SockClose 0, TimerFire 1, SockOpen 1, SockMessage 1 ''a''] :: nat event list"
  obtain w' where r: "run ?p ?c ?es ?n = Some w'"
    by (simp add: new_service_def connect_def onMessage_def onopen_def onmessage_def
        disconnect_def onclose_def reconnect_timeout_def close_socket_def
        clearReconnectInterval_def scheduleReconnect_def)
  have n: "delivered ?n = []" "messageHandler ?n = None" "app ?n = []"
    by (simp_all add: new_service_def)
  have "run ?p ?c ?es ?n = Some w' \<longrightarrow>
      delivered w' = delivered ?n @ expected_deliveries ?p ?es (messageHandler ?n) \<and>
      messageHandler w' = last_registered ?es (messageHandler ?n) \<and>
      app w' = fold (\<lambda>p. ?c (fst p) (snd p))
                 (expected_deliveries ?p ?es (messageHandler ?n)) (app ?n)"
    using single_handler_slot [of 0 ?n ?p ?c ?es w'] by blast
  with r have "delivered w' = [(2, JNum 1)]" and "app w' = [2]"
    unfolding n by simp_all
  with r show ?thesis by simp
qed

end
